theory Spec2Isabelle
  imports Complex_Main "HOL-Library.Word"
begin

section \<open>Strings and bytes\<close>

text \<open>
  Python \<^verbatim>\<open>str\<close> values are modelled as \<^typ>\<open>string\<close>, a list of characters with
  code points below 256; Python \<^verbatim>\<open>bytes\<close> as lists of 8-bit words.
\<close>

type_synonym byte = "8 word"
type_synonym bytes = "byte list"

text \<open>
  \<^verbatim>\<open>str.lower()\<close>: \<^verbatim>\<open>A\<close>..\<^verbatim>\<open>Z\<close> become \<^verbatim>\<open>a\<close>..\<^verbatim>\<open>z\<close>, and the
  upper-case letters at code points 192..222 (all but the multiplication sign, 215) move up
  by 32; every other character below 256 stays.
\<close>

definition lower_char :: "char \<Rightarrow> char" where
  "lower_char c =
     (case map_of (zip ''ABCDEFGHIJKLMNOPQRSTUVWXYZ'' ''abcdefghijklmnopqrstuvwxyz'') c of
        None \<Rightarrow>
          (let n = of_char c :: nat
           in if 192 \<le> n \<and> n \<le> 222 \<and> n \<noteq> 215 then char_of (n + 32) else c)
      | Some l \<Rightarrow> l)"

definition lower :: "string \<Rightarrow> string" where
  "lower s = map lower_char s"

text \<open>\<^verbatim>\<open>s.startswith(p)\<close>.\<close>

definition startswith :: "'a list \<Rightarrow> 'a list \<Rightarrow> bool" where
  "startswith s p = (take (length p) s = p)"

text \<open>\<^verbatim>\<open>p in s\<close> for strings: \<open>p\<close> occurs as a contiguous substring of \<open>s\<close>.\<close>

fun contains :: "string \<Rightarrow> string \<Rightarrow> bool" where
  "contains [] p = (p = [])"
| "contains (c # s) p = (startswith (c # s) p \<or> contains s p)"

text \<open>\<^verbatim>\<open>next((f for f in files if P(f)), None)\<close>: the first element satisfying \<open>P\<close>.\<close>

fun first_where :: "('a \<Rightarrow> bool) \<Rightarrow> 'a list \<Rightarrow> 'a option" where
  "first_where P [] = None"
| "first_where P (x # xs) = (if P x then Some x else first_where P xs)"

section \<open>Payload classification\<close>

text \<open>
  \<^verbatim>\<open>is_zip = (response.headers.get("Content-Type", "").lower().startswith("application/zip")
            or content[:4] == b"PK\x03\x04")\<close>
  The header is \<open>None\<close> when the response carries no Content-Type.
\<close>

definition zip_signature :: bytes where
  "zip_signature = [0x50, 0x4B, 0x03, 0x04]"

definition headers_get :: "string option \<Rightarrow> string \<Rightarrow> string" where
  "headers_get h dflt = (case h of None \<Rightarrow> dflt | Some v \<Rightarrow> v)"

definition is_zip :: "string option \<Rightarrow> bytes \<Rightarrow> bool" where
  "is_zip content_type content =
     (startswith (lower (headers_get content_type [])) ''application/zip''
      \<or> take 4 content = zip_signature)"

text \<open>
  The classification rule in the specification's words: the declared content type begins,
  compared without regard to letter case, with the archive MIME prefix, or the payload has
  at least four bytes and they are \<open>0x50 0x4B 0x03 0x04\<close>.
\<close>

definition begins_caseless :: "string \<Rightarrow> string \<Rightarrow> bool" where
  "begins_caseless s p =
     (length p \<le> length s \<and> map lower_char (take (length p) s) = map lower_char p)"

definition spec_is_composite :: "string option \<Rightarrow> bytes \<Rightarrow> bool" where
  "spec_is_composite content_type content =
     ((case content_type of None \<Rightarrow> False | Some ct \<Rightarrow> begins_caseless ct ''application/zip'')
      \<or> (\<exists>rest. content = 0x50 # 0x4B # 0x03 # 0x04 # rest))"

section \<open>Dates and times\<close>

text \<open>
  Proleptic Gregorian calendar as used by Python's \<^verbatim>\<open>datetime\<close>: day numbers count from
  1970-01-01.
\<close>

definition is_leap :: "int \<Rightarrow> bool" where
  "is_leap y = (y mod 4 = 0 \<and> (y mod 100 \<noteq> 0 \<or> y mod 400 = 0))"

definition days_in_month :: "int \<Rightarrow> int \<Rightarrow> int" where
  "days_in_month y m =
     (if m = 2 then (if is_leap y then 29 else 28)
      else if m = 4 \<or> m = 6 \<or> m = 9 \<or> m = 11 then 30 else 31)"

definition days_from_civil :: "int \<Rightarrow> int \<Rightarrow> int \<Rightarrow> int" where
  "days_from_civil y m d =
     (let y' = (if m \<le> 2 then y - 1 else y);
          era = y' div 400;
          yoe = y' - era * 400;
          doy = (153 * (if m > 2 then m - 3 else m + 9) + 2) div 5 + d - 1;
          doe = yoe * 365 + yoe div 4 - yoe div 100 + doy
      in era * 146097 + doe - 719468)"

definition civil_from_days :: "int \<Rightarrow> int \<times> int \<times> int" where
  "civil_from_days z =
     (let z' = z + 719468;
          era = z' div 146097;
          doe = z' - era * 146097;
          yoe = (doe - doe div 1460 + doe div 36524 - doe div 146096) div 365;
          doy = doe - (365 * yoe + yoe div 4 - yoe div 100);
          mp = (5 * doy + 2) div 153;
          d = doy - (153 * mp + 2) div 5 + 1;
          m = (if mp < 10 then mp + 3 else mp - 9);
          y = yoe + era * 400
      in (if m \<le> 2 then y + 1 else y, m, d))"

text \<open>
  An aware \<^verbatim>\<open>datetime\<close>: the instant it denotes, in whole seconds since the epoch
  (what \<^verbatim>\<open>timestamp()\<close> returns), and the UTC offset of its zone at that instant, in
  seconds. Its civil fields are those of \<open>instant + utcoffset\<close>.
\<close>

record datetime =
  instant :: int
  utcoffset :: int

record civil =
  year :: int
  month :: int
  day :: int
  hour :: int
  minute :: int
  second :: int

definition civil_of_seconds :: "int \<Rightarrow> civil" where
  "civil_of_seconds t =
     (let (y, m, d) = civil_from_days (t div 86400); r = t mod 86400
      in \<lparr>year = y, month = m, day = d,
          hour = r div 3600, minute = r mod 3600 div 60, second = r mod 60\<rparr>)"

definition seconds_of_civil :: "civil \<Rightarrow> int" where
  "seconds_of_civil c =
     days_from_civil (year c) (month c) (day c) * 86400
       + hour c * 3600 + minute c * 60 + second c"

definition civil_fields :: "datetime \<Rightarrow> civil" where
  "civil_fields dt = civil_of_seconds (instant dt + utcoffset dt)"

definition timestamp :: "datetime \<Rightarrow> int" where
  "timestamp dt = instant dt"

subsection \<open>Decimal digits\<close>

definition is_digit :: "char \<Rightarrow> bool" where
  "is_digit c = (c \<in> set ''0123456789'')"

definition digit_val :: "char \<Rightarrow> int" where
  "digit_val c =
     (case map_of (zip ''0123456789'' [0, 1, 2, 3, 4, 5, 6, 7, 8, 9]) c of
        None \<Rightarrow> 0
      | Some v \<Rightarrow> v)"

definition digit_char :: "int \<Rightarrow> char" where
  "digit_char n = ''0123456789'' ! nat n"

text \<open>\<^verbatim>\<open>int(s)\<close> on a run of decimal digits.\<close>

definition digits_val :: "string \<Rightarrow> int" where
  "digits_val ds = foldl (\<lambda>a c. 10 * a + digit_val c) 0 ds"

text \<open>The zero-padded two-digit fields \<^verbatim>\<open>%m %d %H %M %S\<close> of \<^verbatim>\<open>strftime\<close>, and a
  year written with four digits as in the manifest.\<close>

definition two_digits :: "int \<Rightarrow> string" where
  "two_digits n = [digit_char (n div 10 mod 10), digit_char (n mod 10)]"

definition four_digits :: "int \<Rightarrow> string" where
  "four_digits n =
     [digit_char (n div 1000 mod 10), digit_char (n div 100 mod 10),
      digit_char (n div 10 mod 10), digit_char (n mod 10)]"

text \<open>
  \<^verbatim>\<open>%Y\<close> of \<^verbatim>\<open>strftime\<close> on Linux: the year in decimal without padding (a year below
  1000 has fewer than four digits). Years of a \<^verbatim>\<open>datetime\<close> are 1..9999.
\<close>

function decimal :: "int \<Rightarrow> string" where
  "decimal n =
     (if n < 10 then [digit_char (n mod 10)] else decimal (n div 10) @ [digit_char (n mod 10)])"
  by pat_completeness auto
termination
  by (relation "measure nat") auto

declare decimal.simps [simp del]

subsection \<open>Parsing the capture time\<close>

datatype error =
    ValueError string
  | OverflowError
  | NetworkError
  | HTTPStatusError nat
  | BadZipFile
  | ImageError
  | OSError

text \<open>
  \<^verbatim>\<open>datetime.strptime(v, "%Y-%m-%d %H:%M:%S UTC")\<close>. CPython compiles the format to a
  regular expression, matched from the start of the string and ignoring letter case:
  \<^verbatim>\<open>%Y\<close> is \<^verbatim>\<open>\d\d\d\d\<close>, \<^verbatim>\<open>%m\<close> is \<^verbatim>\<open>1[0-2]|0[1-9]|[1-9]\<close>,
  \<^verbatim>\<open>%d\<close> is \<^verbatim>\<open>3[0-1]|[1-2]\d|0[1-9]|[1-9]| [1-9]\<close>, \<^verbatim>\<open>%H\<close> is \<^verbatim>\<open>2[0-3]|[0-1]\d|\d\<close>,
  \<^verbatim>\<open>%M\<close> is \<^verbatim>\<open>[0-5]\d|\d\<close>, \<^verbatim>\<open>%S\<close> is \<^verbatim>\<open>6[0-1]|[0-5]\d|\d\<close>, and each blank
  of the format is \<^verbatim>\<open>\s+\<close>. Every field is followed by a character that is not a digit, so a
  field matches exactly when the whole run of digits at that place is one of its alternatives:
  one or two digits whose value lies in the field's range. Text left after the match is an
  error, and so is a field combination that is not a date (\<^verbatim>\<open>datetime\<close> rejects year 0,
  a day beyond the month's length and seconds 60 and 61).
\<close>

type_synonym 'a parser = "string \<Rightarrow> ('a \<times> string) option"

definition number_field :: "int \<Rightarrow> int \<Rightarrow> int parser" where
  "number_field lo hi s =
     (let r = takeWhile is_digit s; v = digits_val r
      in if 1 \<le> length r \<and> length r \<le> 2 \<and> lo \<le> v \<and> v \<le> hi
         then Some (v, dropWhile is_digit s) else None)"

definition year_field :: "int parser" where
  "year_field s =
     (if 4 \<le> length s \<and> list_all is_digit (take 4 s)
      then Some (digits_val (take 4 s), drop 4 s) else None)"

definition day_field :: "int parser" where
  "day_field s =
     (case number_field 1 31 s of
        Some r \<Rightarrow> Some r
      | None \<Rightarrow>
          (case s of
             c # s' \<Rightarrow>
               if c = CHR '' '' \<and> length (takeWhile is_digit s') = 1 then number_field 1 9 s'
               else None
           | [] \<Rightarrow> None))"

definition literal :: "char \<Rightarrow> unit parser" where
  "literal c s =
     (case s of
        [] \<Rightarrow> None
      | x # s' \<Rightarrow> if lower_char x = lower_char c then Some ((), s') else None)"

text \<open>\<^verbatim>\<open>\s\<close> on text below code point 256: blank, \<^verbatim>\<open>\t \n \v \f \r\<close>, the
  separators \<^verbatim>\<open>\x1c\<close>..\<^verbatim>\<open>\x1f\<close>, next line (133) and no-break space (160).\<close>

definition is_space :: "char \<Rightarrow> bool" where
  "is_space c =
     (let n = of_char c :: nat
      in n = 32 \<or> (9 \<le> n \<and> n \<le> 13) \<or> (28 \<le> n \<and> n \<le> 31) \<or> n = 133 \<or> n = 160)"

definition spaces1 :: "unit parser" where
  "spaces1 s =
     (case s of
        [] \<Rightarrow> None
      | c # s' \<Rightarrow> if is_space c then Some ((), dropWhile is_space s') else None)"

definition strptime :: "string \<Rightarrow> error + civil" where
  "strptime v =
     (case
        Option.bind (year_field v) (\<lambda>(y, s).
        Option.bind (literal CHR ''-'' s) (\<lambda>(_, s).
        Option.bind (number_field 1 12 s) (\<lambda>(m, s).
        Option.bind (literal CHR ''-'' s) (\<lambda>(_, s).
        Option.bind (day_field s) (\<lambda>(d, s).
        Option.bind (spaces1 s) (\<lambda>(_, s).
        Option.bind (number_field 0 23 s) (\<lambda>(H, s).
        Option.bind (literal CHR '':'' s) (\<lambda>(_, s).
        Option.bind (number_field 0 59 s) (\<lambda>(M, s).
        Option.bind (literal CHR '':'' s) (\<lambda>(_, s).
        Option.bind (number_field 0 61 s) (\<lambda>(S, s).
        Option.bind (spaces1 s) (\<lambda>(_, s).
        Option.bind (literal CHR ''U'' s) (\<lambda>(_, s).
        Option.bind (literal CHR ''T'' s) (\<lambda>(_, s).
        Option.bind (literal CHR ''C'' s) (\<lambda>(_, s).
          Some (\<lparr>year = y, month = m, day = d, hour = H, minute = M, second = S\<rparr>, s))))))))))))))))
      of
        None \<Rightarrow> Inl (ValueError ''time data does not match format'')
      | Some (c, rest) \<Rightarrow>
          if rest \<noteq> [] then Inl (ValueError ''unconverted data remains'')
          else if year c < 1 then Inl (ValueError ''year is out of range'')
          else if day c > days_in_month (year c) (month c)
            then Inl (ValueError ''day is out of range for month'')
          else if second c > 59 then Inl (ValueError ''second must be in 0..59'')
          else Inr c)"

text \<open>
  \<^verbatim>\<open>Memory.parse_date\<close> on a string:
  \<^verbatim>\<open>dt = datetime.strptime(v, "%Y-%m-%d %H:%M:%S UTC")
  dt = dt.replace(tzinfo=timezone.utc)
  return dt.astimezone(ZoneInfo("America/Los_Angeles"))\<close>
  The zone table is data of the tz database, not of this program: \<open>zone\<close> gives the zone's
  UTC offset in seconds at an instant. \<^verbatim>\<open>astimezone\<close> raises \<^verbatim>\<open>OverflowError\<close> when the
  local year leaves 1..9999.
\<close>

definition replace_tzinfo_utc :: "civil \<Rightarrow> datetime" where
  "replace_tzinfo_utc c = \<lparr>instant = seconds_of_civil c, utcoffset = 0\<rparr>"

definition astimezone :: "(int \<Rightarrow> int) \<Rightarrow> datetime \<Rightarrow> error + datetime" where
  "astimezone zone dt =
     (let dt' = \<lparr>instant = instant dt, utcoffset = zone (instant dt)\<rparr>;
          y = year (civil_fields dt')
      in if 1 \<le> y \<and> y \<le> 9999 then Inr dt' else Inl OverflowError)"

definition parse_date :: "(int \<Rightarrow> int) \<Rightarrow> string \<Rightarrow> error + datetime" where
  "parse_date zone v =
     (case strptime v of
        Inl e \<Rightarrow> Inl e
      | Inr c \<Rightarrow> astimezone zone (replace_tzinfo_utc c))"

text \<open>The capture-time form of the specification, \<^verbatim>\<open>YYYY-MM-DD HH:MM:SS\<close>.\<close>

definition capture_time_text :: "civil \<Rightarrow> string" where
  "capture_time_text c =
     four_digits (year c) @ ''-'' @ two_digits (month c) @ ''-'' @ two_digits (day c) @ '' ''
       @ two_digits (hour c) @ '':'' @ two_digits (minute c) @ '':'' @ two_digits (second c)"

definition valid_civil :: "civil \<Rightarrow> bool" where
  "valid_civil c =
     (1 \<le> year c \<and> year c \<le> 9999 \<and> 1 \<le> month c \<and> month c \<le> 12
      \<and> 1 \<le> day c \<and> day c \<le> days_in_month (year c) (month c)
      \<and> 0 \<le> hour c \<and> hour c \<le> 23 \<and> 0 \<le> minute c \<and> minute c \<le> 59
      \<and> 0 \<le> second c \<and> second c \<le> 59)"

text \<open>A zone table without transitions, eight hours behind UTC (Pacific Standard Time).\<close>

definition pacific_standard :: "int \<Rightarrow> int" where
  "pacific_standard t = - 28800"

section \<open>Manifest records\<close>

record memory =
  date :: datetime
  media_type :: string
  download_link :: string
  location :: string
  latitude :: "rat option"
  longitude :: "rat option"

text \<open>
  \<^verbatim>\<open>re.search(r"([-\d.]+),\s*([-\d.]+)", self.location)\<close>: the two groups of the leftmost
  match. A group is a whole run of the characters \<^verbatim>\<open>-\<close>, \<^verbatim>\<open>.\<close> and digits: the first
  run must end at a comma, the second starts after the comma and any white space.
\<close>

definition is_coordinate_char :: "char \<Rightarrow> bool" where
  "is_coordinate_char c = (c = CHR ''-'' \<or> is_digit c \<or> c = CHR ''.'')"

definition match_coordinates :: "string \<Rightarrow> (string \<times> string) option" where
  "match_coordinates s =
     (let g1 = takeWhile is_coordinate_char s
      in if g1 = [] then None
         else
           (case dropWhile is_coordinate_char s of
              [] \<Rightarrow> None
            | c # r \<Rightarrow>
                if c \<noteq> CHR '','' then None
                else
                  (let g2 = takeWhile is_coordinate_char (dropWhile is_space r)
                   in if g2 = [] then None else Some (g1, g2))))"

fun re_search :: "string \<Rightarrow> (string \<times> string) option" where
  "re_search [] = None"
| "re_search (c # s) =
     (case match_coordinates (c # s) of
        Some g \<Rightarrow> Some g
      | None \<Rightarrow> re_search s)"

text \<open>
  \<^verbatim>\<open>ext = ".jpg" if self.media_type.lower() == "image" else ".mp4"
  return f"{self.date.strftime('%Y-%m-%d_%H-%M-%S')}{ext}"\<close>
\<close>

definition strftime_stamp :: "datetime \<Rightarrow> string" where
  "strftime_stamp dt =
     (let c = civil_fields dt
      in decimal (year c) @ ''-'' @ two_digits (month c) @ ''-'' @ two_digits (day c) @ ''_''
           @ two_digits (hour c) @ ''-'' @ two_digits (minute c) @ ''-'' @ two_digits (second c))"

definition filename :: "memory \<Rightarrow> string" where
  "filename m =
     strftime_stamp (date m) @ (if lower (media_type m) = ''image'' then ''.jpg'' else ''.mp4'')"

section \<open>Floating point\<close>

text \<open>
  Python floats are IEEE 754 binary64. A finite float is modelled by the rational number it
  denotes, and every arithmetic operation returns the exact result rounded to the nearest
  float, ties to even (\<open>fl\<close>; overflow does not arise for the magnitudes handled here).
\<close>

definition round_half_even :: "rat \<Rightarrow> int" where
  "round_half_even x =
     (let f = \<lfloor>x\<rfloor>; r = x - of_int f
      in if r < 1 / 2 then f else if 1 / 2 < r then f + 1 else if even f then f else f + 1)"

definition pow2 :: "int \<Rightarrow> rat" where
  "pow2 e = (if 0 \<le> e then 2 ^ nat e else 1 / 2 ^ nat (- e))"

text \<open>The number of binary digits of a positive integer.\<close>

function bit_length :: "int \<Rightarrow> int" where
  "bit_length n = (if n \<le> 0 then 0 else 1 + bit_length (n div 2))"
  by pat_completeness auto
termination
  by (relation "measure nat") auto

text \<open>\<open>\<lfloor>log\<^sub>2 x\<rfloor>\<close> for positive \<open>x\<close>.\<close>

definition ilog2 :: "rat \<Rightarrow> int" where
  "ilog2 x =
     (let (p, q) = quotient_of x;
          e = bit_length p - bit_length q
      in if pow2 e \<le> x then e else e - 1)"

definition fl :: "rat \<Rightarrow> rat" where
  "fl x =
     (if x = 0 then 0
      else let u = pow2 (max (ilog2 \<bar>x\<bar> - 52) (- 1074))
           in of_int (round_half_even (x / u)) * u)"

definition float_add :: "rat \<Rightarrow> rat \<Rightarrow> rat" where
  "float_add a b = fl (a + b)"

definition float_sub :: "rat \<Rightarrow> rat \<Rightarrow> rat" where
  "float_sub a b = fl (a - b)"

definition float_mul :: "rat \<Rightarrow> rat \<Rightarrow> rat" where
  "float_mul a b = fl (a * b)"

definition float_div :: "rat \<Rightarrow> rat \<Rightarrow> rat" where
  "float_div a b = fl (a / b)"

text \<open>\<^verbatim>\<open>float(n)\<close> for an integer \<open>n\<close>.\<close>

definition float_of_int :: "int \<Rightarrow> rat" where
  "float_of_int n = fl (of_int n)"

text \<open>\<^verbatim>\<open>int(x)\<close> truncates toward zero.\<close>

definition py_int :: "rat \<Rightarrow> int" where
  "py_int x = (if 0 \<le> x then \<lfloor>x\<rfloor> else \<lceil>x\<rceil>)"

text \<open>
  \<^verbatim>\<open>round(x, ndigits)\<close> is correctly rounded in CPython: the exact value of \<open>x\<close> is
  rounded to \<open>ndigits\<close> decimals, ties to even, and the float nearest to that decimal is
  returned.
\<close>

definition py_round :: "rat \<Rightarrow> nat \<Rightarrow> rat" where
  "py_round x ndigits = fl (of_int (round_half_even (x * 10 ^ ndigits)) / 10 ^ ndigits)"

section \<open>Record construction\<close>

text \<open>
  \<^verbatim>\<open>float(s)\<close> on a string of the characters \<^verbatim>\<open>-\<close>, \<^verbatim>\<open>.\<close> and digits: an
  optional leading minus sign, then digits with at most one point and at least one digit;
  anything else raises \<^verbatim>\<open>ValueError\<close> (\<open>None\<close>). The result is the float nearest to the
  decimal. (A decimal beyond the range of the floats gives an infinity in Python; the model
  has no infinities and keeps the rounded rational.)
\<close>

definition float_syntax :: "string \<Rightarrow> (bool \<times> string \<times> string) option" where
  "float_syntax s =
     (let negative = (case s of [] \<Rightarrow> False | c # _ \<Rightarrow> c = CHR ''-'');
          body = (if negative then tl s else s);
          whole = takeWhile is_digit body;
          rest = dropWhile is_digit body;
          fraction = (case rest of [] \<Rightarrow> [] | _ # r \<Rightarrow> r)
      in if (rest = [] \<or> hd rest = CHR ''.'') \<and> list_all is_digit fraction
            \<and> whole @ fraction \<noteq> []
         then Some (negative, whole, fraction) else None)"

definition py_float :: "string \<Rightarrow> rat option" where
  "py_float s =
     (case float_syntax s of
        None \<Rightarrow> None
      | Some (negative, whole, fraction) \<Rightarrow>
          Some (fl ((if negative then - 1 else 1)
                    * (of_int (digits_val whole)
                       + of_int (digits_val fraction) / 10 ^ length fraction))))"

text \<open>
  \<^verbatim>\<open>def model_post_init(self, __context):
      if self.location and not self.latitude:
          if match := re.search(r"([-\d.]+),\s*([-\d.]+)", self.location):
              self.latitude = float(match.group(1))
              self.longitude = float(match.group(2))\<close>
  These two assignments are the only assignments to a field of a record in the program. A
  latitude that is \<^verbatim>\<open>None\<close> or zero is not truthy.
\<close>

definition model_post_init :: "memory \<Rightarrow> error + memory" where
  "model_post_init m =
     (if location m \<noteq> [] \<and> (latitude m = None \<or> latitude m = Some 0) then
        (case re_search (location m) of
           None \<Rightarrow> Inr m
         | Some (g1, g2) \<Rightarrow>
             (case py_float g1 of
                None \<Rightarrow> Inl (ValueError ''could not convert string to float'')
              | Some lat \<Rightarrow>
                  (case py_float g2 of
                     None \<Rightarrow> Inl (ValueError ''could not convert string to float'')
                   | Some lon \<Rightarrow> Inr (m\<lparr>latitude := Some lat, longitude := Some lon\<rparr>))))
      else Inr m)"

text \<open>
  \<^verbatim>\<open>Memory(**item)\<close> for an entry of the manifest whose \<^verbatim>\<open>Date\<close> is a string: the
  validator \<^verbatim>\<open>parse_date\<close> runs on the date before the fields are stored, the location
  defaults to the empty string, and \<^verbatim>\<open>model_post_init\<close> runs on the stored record.
\<close>

record manifest_entry =
  entry_date :: string
  entry_media_type :: string
  entry_download_link :: string
  entry_location :: "string option"
  entry_latitude :: "rat option"
  entry_longitude :: "rat option"

definition make_memory :: "(int \<Rightarrow> int) \<Rightarrow> manifest_entry \<Rightarrow> error + memory" where
  "make_memory zone e =
     (case parse_date zone (entry_date e) of
        Inl err \<Rightarrow> Inl err
      | Inr dt \<Rightarrow>
          model_post_init
            \<lparr>date = dt,
             media_type = entry_media_type e,
             download_link = entry_download_link e,
             location = (case entry_location e of None \<Rightarrow> [] | Some l \<Rightarrow> l),
             latitude = entry_latitude e,
             longitude = entry_longitude e\<rparr>)"

section \<open>Image metadata\<close>

text \<open>
  \<^verbatim>\<open>def to_deg(value):
      d = int(abs(value))
      m_float = (abs(value) - d) * 60
      m = int(m_float)
      s = round((m_float - m) * 60, 6)
      return d, m, s\<close>
\<close>

definition to_deg :: "rat \<Rightarrow> int \<times> int \<times> rat" where
  "to_deg v =
     (let d = py_int \<bar>v\<bar>;
          m_float = float_mul (float_sub \<bar>v\<bar> (float_of_int d)) 60;
          m = py_int m_float;
          s = py_round (float_mul (float_sub m_float (float_of_int m)) 60) 6
      in (d, m, s))"

text \<open>
  \<^verbatim>\<open>def deg_to_rational(dms):
      d, m, s = dms
      return [(int(d), 1), (int(m), 1), (int(s * 100), 100)]\<close>
\<close>

definition deg_to_rational :: "int \<times> int \<times> rat \<Rightarrow> (int \<times> int) list" where
  "deg_to_rational dms =
     (case dms of (d, m, s) \<Rightarrow> [(d, 1), (m, 1), (py_int (float_mul s 100), 100)])"

text \<open>Reading a degree/minute/second rational triple back as decimal degrees.\<close>

definition dms_value :: "(int \<times> int) list \<Rightarrow> rat" where
  "dms_value r =
     (case r of
        [(dn, dd), (mn, md), (sn, sd)] \<Rightarrow>
          of_int dn / of_int dd + of_int mn / of_int md / 60 + of_int sn / of_int sd / 3600
      | _ \<Rightarrow> 0)"

text \<open>
  The conversion in the specification's words: degrees, minutes, and the seconds rounded to
  two decimal digits, as a rational with denominator 100.
\<close>

definition spec_dms :: "rat \<Rightarrow> (int \<times> int) list" where
  "spec_dms v =
     (let d = \<lfloor>\<bar>v\<bar>\<rfloor>;
          mf = (\<bar>v\<bar> - of_int d) * 60;
          m = \<lfloor>mf\<rfloor>;
          s = (mf - of_int m) * 60
      in [(d, 1), (m, 1), (round_half_even (s * 100), 100)])"

text \<open>
  The conversion described by what it does to a coordinate: the degrees are the whole part
  of its absolute value; the minutes are the whole part of sixty times the rest; the seconds
  are sixty times what then remains, rounded to the nearest millionth (ties to even) and
  then cut, toward zero, to whole hundredths. Each arithmetic step is a float operation.
\<close>

definition truncate_toward_zero :: "rat \<Rightarrow> int" where
  "truncate_toward_zero x = (if x < 0 then - \<lfloor>- x\<rfloor> else \<lfloor>x\<rfloor>)"

definition round_to_millionths :: "rat \<Rightarrow> rat" where
  "round_to_millionths x = of_int (round_half_even (x * 1000000)) / 1000000"

definition dms_truncating :: "rat \<Rightarrow> (int \<times> int) list" where
  "dms_truncating v =
     (let degrees = \<lfloor>\<bar>v\<bar>\<rfloor>;
          minutes = fl (fl (\<bar>v\<bar> - fl (of_int degrees)) * 60);
          whole_minutes = truncate_toward_zero minutes;
          seconds = fl (round_to_millionths (fl (fl (minutes - fl (of_int whole_minutes)) * 60)))
      in [(degrees, 1), (whole_minutes, 1), (truncate_toward_zero (fl (seconds * 100)), 100)])"

text \<open>
  The EXIF dictionary of \<^verbatim>\<open>piexif\<close>: tags, grouped by IFD (\<^verbatim>\<open>"0th"\<close>, \<^verbatim>\<open>"Exif"\<close>,
  \<^verbatim>\<open>"GPS"\<close>), mapped to values.
\<close>

datatype exif_tag =
    ImageIFD_DateTime
  | ExifIFD_DateTimeOriginal
  | ExifIFD_DateTimeDigitized
  | GPSIFD_GPSVersionID
  | GPSIFD_GPSLatitudeRef
  | GPSIFD_GPSLatitude
  | GPSIFD_GPSLongitudeRef
  | GPSIFD_GPSLongitude
  | OtherTag nat

datatype exif_value =
    Ascii string
  | Rationals "(int \<times> int) list"
  | Numbers "nat list"
  | Undefined bytes

type_synonym exif_dict = "exif_tag \<rightharpoonup> exif_value"

text \<open>\<^verbatim>\<open>memory.date.strftime("%Y:%m:%d %H:%M:%S")\<close>.\<close>

definition strftime_exif :: "datetime \<Rightarrow> string" where
  "strftime_exif dt =
     (let c = civil_fields dt
      in decimal (year c) @ '':'' @ two_digits (month c) @ '':'' @ two_digits (day c) @ '' ''
           @ two_digits (hour c) @ '':'' @ two_digits (minute c) @ '':'' @ two_digits (second c))"

text \<open>
  The tag assignments of \<^verbatim>\<open>add_exif_data\<close>: the three date fields, and the GPS fields when
  both coordinates are known.
\<close>

definition set_gps_tags :: "rat \<Rightarrow> rat \<Rightarrow> exif_dict \<Rightarrow> exif_dict" where
  "set_gps_tags lat lon e =
     (let lat_ref = (if 0 \<le> lat then ''N'' else ''S'');
          lon_ref = (if 0 \<le> lon then ''E'' else ''W'');
          lat_dms = deg_to_rational (to_deg lat);
          lon_dms = deg_to_rational (to_deg lon)
      in e(GPSIFD_GPSLatitudeRef \<mapsto> Ascii lat_ref,
           GPSIFD_GPSLongitudeRef \<mapsto> Ascii lon_ref,
           GPSIFD_GPSLatitude \<mapsto> Rationals lat_dms,
           GPSIFD_GPSLongitude \<mapsto> Rationals lon_dms,
           GPSIFD_GPSVersionID \<mapsto> Numbers [2, 3, 0, 0]))"

definition set_exif_tags :: "memory \<Rightarrow> exif_dict \<Rightarrow> exif_dict" where
  "set_exif_tags m e =
     (let dt_str = strftime_exif (date m);
          e' = e(ImageIFD_DateTime \<mapsto> Ascii dt_str,
                 ExifIFD_DateTimeOriginal \<mapsto> Ascii dt_str,
                 ExifIFD_DateTimeDigitized \<mapsto> Ascii dt_str)
      in case (latitude m, longitude m) of
           (Some lat, Some lon) \<Rightarrow> set_gps_tags lat lon e'
         | _ \<Rightarrow> e')"

section \<open>The world outside the program\<close>

text \<open>
  What the network, the archive, imaging and EXIF libraries and the external \<^verbatim>\<open>ffmpeg\<close>
  tool answer is not decided by this program. Each is a field of the environment \<open>env\<close>;
  a library call that raises is \<open>None\<close>.
\<close>

datatype http_result =
    ConnectFailure
  | Response nat "string option" bytes

record zip_file =
  zip_namelist :: "string list"
  zip_read :: "string \<Rightarrow> bytes option"

datatype mode = RGBA | RGB | OtherMode

datatype resample = NEAREST | BILINEAR | BICUBIC | LANCZOS

text \<open>
  A run of \<^verbatim>\<open>subprocess.run([..., out_path], check=True)\<close>: the tool could not be started,
  or it exited with a status, leaving (or not) a file at its output path.
\<close>

datatype proc_result =
    SpawnFailure
  | Exited int "bytes option"

record video_metadata =
  creation_time :: datetime
  location_tag :: "(rat \<times> rat \<times> rat) option"

record 'img env =
  http_get :: "string \<Rightarrow> http_result"
  zip_open :: "bytes \<Rightarrow> zip_file option"
  image_open :: "bytes \<Rightarrow> 'img option"
  image_size :: "'img \<Rightarrow> nat \<times> nat"
  image_mode :: "'img \<Rightarrow> mode"
  image_convert :: "'img \<Rightarrow> mode \<Rightarrow> 'img"
  image_resize :: "'img \<Rightarrow> nat \<times> nat \<Rightarrow> resample \<Rightarrow> 'img"
  image_alpha_composite :: "'img \<Rightarrow> 'img \<Rightarrow> 'img option"
  image_save_jpeg :: "'img \<Rightarrow> bytes option"
  ffmpeg_overlay :: "bytes \<Rightarrow> bytes \<Rightarrow> proc_result"
  ffmpeg_metadata :: "bytes \<Rightarrow> video_metadata \<Rightarrow> proc_result"
  exif_load :: "bytes \<Rightarrow> exif_dict option"
  exif_insert :: "exif_dict \<Rightarrow> bytes \<Rightarrow> bytes option"
  clock :: int
  arrival :: "memory \<Rightarrow> nat"

text \<open>
  The output directory maps file names to contents and modification times. The trace records,
  per manifest record, the calls that reach outside the program.
\<close>

record stored_file =
  file_content :: bytes
  file_mtime :: int

datatype event =
    Acquire
  | Release
  | HttpGet string
  | RunFfmpeg
  | WriteFile string
  | Utime string

record world =
  files :: "string \<rightharpoonup> stored_file"
  trace :: "(memory \<times> event) list"

definition emit :: "memory \<Rightarrow> event \<Rightarrow> world \<Rightarrow> world" where
  "emit m e w = w\<lparr>trace := trace w @ [(m, e)]\<rparr>"

definition write_bytes :: "'img env \<Rightarrow> memory \<Rightarrow> string \<Rightarrow> bytes \<Rightarrow> world \<Rightarrow> world" where
  "write_bytes env m path data w =
     emit m (WriteFile path)
       (w\<lparr>files := (files w)(path \<mapsto> \<lparr>file_content = data, file_mtime = clock env\<rparr>)\<rparr>)"

text \<open>\<^verbatim>\<open>os.utime(path, (ts, ts))\<close> raises when the file does not exist.\<close>

definition utime :: "memory \<Rightarrow> string \<Rightarrow> int \<Rightarrow> world \<Rightarrow> world option" where
  "utime m path ts w =
     (case files w path of
        None \<Rightarrow> None
      | Some f \<Rightarrow> Some (emit m (Utime path) (w\<lparr>files := (files w)(path \<mapsto> f\<lparr>file_mtime := ts\<rparr>)\<rparr>)))"

text \<open>\<^verbatim>\<open>Path.suffix\<close> and \<^verbatim>\<open>Path.with_suffix\<close> on a file name.\<close>

definition suffix_of :: "string \<Rightarrow> string" where
  "suffix_of name =
     (let r = takeWhile (\<lambda>c. c \<noteq> CHR ''.'') (rev name);
          i = length name - length r - 1
      in if CHR ''.'' \<in> set name \<and> 0 < i \<and> r \<noteq> [] then drop i name else [])"

definition with_suffix :: "string \<Rightarrow> string \<Rightarrow> string" where
  "with_suffix name suffix = take (length name - length (suffix_of name)) name @ suffix"

text \<open>The number of dots in a file name.\<close>

definition dots :: "string \<Rightarrow> nat" where
  "dots s = length (filter (\<lambda>c. c = CHR ''.'') s)"

text \<open>
  An operation of item \<open>m\<close> is confined to the file names \<open>S\<close>: every other file is left
  as it was, and the trace grows by events of \<open>m\<close> only.
\<close>

definition confined :: "memory \<Rightarrow> string set \<Rightarrow> world \<Rightarrow> world \<Rightarrow> bool" where
  "confined m S w w' =
     ((\<forall>x. x \<notin> S \<longrightarrow> files w' x = files w x)
      \<and> (\<exists>evs. trace w' = trace w @ evs \<and> fst ` set evs \<subseteq> {m}))"

section \<open>Metadata writers\<close>

text \<open>
  \<^verbatim>\<open>add_exif_data(image_path, memory)\<close>: load the file's EXIF dictionary (an empty one when
  loading raises), assign the tags, dump and insert them into the file, set the file times.
  Any exception is caught and reported; the file is then left as it was.
\<close>

definition add_exif_data :: "'img env \<Rightarrow> string \<Rightarrow> memory \<Rightarrow> world \<Rightarrow> world" where
  "add_exif_data env image_path m w =
     (case files w image_path of
        None \<Rightarrow> w
      | Some f \<Rightarrow>
          (let exif_dict = (case exif_load env (file_content f) of None \<Rightarrow> Map.empty | Some d \<Rightarrow> d)
           in case exif_insert env (set_exif_tags m exif_dict) (file_content f) of
                None \<Rightarrow> w
              | Some data \<Rightarrow>
                  (let w' = write_bytes env m image_path data w
                   in case utime m image_path (timestamp (date m)) w' of
                        None \<Rightarrow> w'
                      | Some w'' \<Rightarrow> w'')))"

text \<open>
  \<^verbatim>\<open>set_video_metadata(video_path, memory)\<close>: \<^verbatim>\<open>ffmpeg\<close> copies the streams of the file
  to \<^verbatim>\<open>video_path.with_suffix(".temp.mp4")\<close> with the creation time (in UTC) and, when
  both coordinates are known, the location; on exit status 0 the temporary file replaces the
  original and the file times are set. Any exception is caught and reported.
\<close>

definition video_metadata_of :: "memory \<Rightarrow> video_metadata" where
  "video_metadata_of m =
     \<lparr>creation_time = \<lparr>instant = instant (date m), utcoffset = 0\<rparr>,
      location_tag =
        (case (latitude m, longitude m) of
           (Some lat, Some lon) \<Rightarrow> Some (lat, lon, 0)
         | _ \<Rightarrow> None)\<rparr>"

definition set_video_metadata :: "'img env \<Rightarrow> string \<Rightarrow> memory \<Rightarrow> world \<Rightarrow> world" where
  "set_video_metadata env video_path m w =
     (case files w video_path of
        None \<Rightarrow> w
      | Some f \<Rightarrow>
          (let temp_path = with_suffix video_path ''.temp.mp4'';
               w1 = emit m RunFfmpeg w
           in case ffmpeg_metadata env (file_content f) (video_metadata_of m) of
                SpawnFailure \<Rightarrow> w1
              | Exited status out \<Rightarrow>
                  (let w2 = (case out of None \<Rightarrow> w1 | Some b \<Rightarrow> write_bytes env m temp_path b w1)
                   in if status \<noteq> 0 then w2
                      else
                        (case files w2 temp_path of
                           None \<Rightarrow> w2
                         | Some t \<Rightarrow>
                             (let w3 = emit m (WriteFile video_path)
                                        (w2\<lparr>files := ((files w2)(temp_path := None))(video_path \<mapsto> t)\<rparr>)
                              in case utime m video_path (timestamp (date m)) w3 of
                                   None \<Rightarrow> w3
                                 | Some w4 \<Rightarrow> w4)))))"

section \<open>One item of the pipeline\<close>

text \<open>
  \<^verbatim>\<open>response = await client.get(url); response.raise_for_status()\<close>: a connection failure
  or timeout raises, and so does a status outside 200..299.
\<close>

definition fetch :: "'img env \<Rightarrow> string \<Rightarrow> error + (string option \<times> bytes)" where
  "fetch env url =
     (case http_get env url of
        ConnectFailure \<Rightarrow> Inl NetworkError
      | Response status content_type content \<Rightarrow>
          if 200 \<le> status \<and> status < 300 then Inr (content_type, content)
          else Inl (HTTPStatusError status))"

text \<open>
  \<^verbatim>\<open>files = zf.namelist()
  main_file = next((f for f in files if "-main" in f), None)
  overlay_file = next((f for f in files if "-overlay" in f), None)
  if not main_file:
      raise ValueError("No main media file found in ZIP.")
  main_data = zf.read(main_file)
  overlay_data = zf.read(overlay_file) if overlay_file else None\<close>
\<close>

definition extract_archive :: "zip_file \<Rightarrow> error + (bytes \<times> bytes option)" where
  "extract_archive zf =
     (let files = zip_namelist zf;
          main_file = first_where (\<lambda>f. contains f ''-main'') files;
          overlay_file = first_where (\<lambda>f. contains f ''-overlay'') files
      in case main_file of
           None \<Rightarrow> Inl (ValueError ''No main media file found in ZIP.'')
         | Some mf \<Rightarrow>
             (case zip_read zf mf of
                None \<Rightarrow> Inl BadZipFile
              | Some main_data \<Rightarrow>
                  (case overlay_file of
                     None \<Rightarrow> Inr (main_data, None)
                   | Some ovf \<Rightarrow>
                       (case zip_read zf ovf of
                          None \<Rightarrow> Inl BadZipFile
                        | Some overlay_data \<Rightarrow> Inr (main_data, Some overlay_data)))))"


text \<open>
  The image branch; the result is the image handed to the JPEG encoder.
  \<^verbatim>\<open>with Image.open(io.BytesIO(main_data)).convert("RGBA") as main_img:
      if overlay_data:
          with Image.open(io.BytesIO(overlay_data)).convert("RGBA") as overlay_img:
              overlay_resized = overlay_img.resize(main_img.size, Image.LANCZOS)
              main_img.alpha_composite(overlay_resized)
      merged_img = main_img.convert("RGB")
      merged_img.save(output_path, "JPEG")\<close>
\<close>

definition merged_image :: "'img env \<Rightarrow> bytes \<Rightarrow> bytes option \<Rightarrow> error + 'img" where
  "merged_image env main_data overlay_data =
     (case image_open env main_data of
        None \<Rightarrow> Inl ImageError
      | Some opened \<Rightarrow>
          (let main_img = image_convert env opened RGBA
           in case overlay_data of
                None \<Rightarrow> Inr (image_convert env main_img RGB)
              | Some od \<Rightarrow>
                  if od = [] then Inr (image_convert env main_img RGB)
                  else
                    (case image_open env od of
                       None \<Rightarrow> Inl ImageError
                     | Some ov \<Rightarrow>
                         (let overlay_img = image_convert env ov RGBA;
                              overlay_resized =
                                image_resize env overlay_img (image_size env main_img) LANCZOS
                          in case image_alpha_composite env main_img overlay_resized of
                               None \<Rightarrow> Inl ImageError
                             | Some composed \<Rightarrow> Inr (image_convert env composed RGB)))))"

definition merge_image :: "'img env \<Rightarrow> bytes \<Rightarrow> bytes option \<Rightarrow> error + bytes" where
  "merge_image env main_data overlay_data =
     (case merged_image env main_data overlay_data of
        Inl e \<Rightarrow> Inl e
      | Inr merged_img \<Rightarrow>
          (case image_save_jpeg env merged_img of
             None \<Rightarrow> Inl OSError
           | Some data \<Rightarrow> Inr data))"

text \<open>
  The video branch; the result is what is written to the output path. With an overlay,
  \<^verbatim>\<open>ffmpeg\<close> merges into a temporary directory: on exit status 0 the merged file is copied
  to the output path; \<^verbatim>\<open>except subprocess.CalledProcessError\<close> (a non-zero status) saves
  \<^verbatim>\<open>main_data\<close> instead. A tool that cannot be started, or a missing merged file, raises
  past that handler.
\<close>

definition merge_video :: "'img env \<Rightarrow> bytes \<Rightarrow> bytes option \<Rightarrow> error + bytes" where
  "merge_video env main_data overlay_data =
     (case overlay_data of
        None \<Rightarrow> Inr main_data
      | Some od \<Rightarrow>
          if od = [] then Inr main_data
          else
            (case ffmpeg_overlay env main_data od of
               SpawnFailure \<Rightarrow> Inl OSError
             | Exited status out \<Rightarrow>
                 if status = 0
                 then (case out of None \<Rightarrow> Inl OSError | Some merged \<Rightarrow> Inr merged)
                 else Inr main_data))"

text \<open>The \<^verbatim>\<open>if is_zip:\<close> branch up to the bytes written to the output path.\<close>

definition composite :: "'img env \<Rightarrow> memory \<Rightarrow> bytes \<Rightarrow> error + bytes" where
  "composite env m content =
     (case zip_open env content of
        None \<Rightarrow> Inl BadZipFile
      | Some zf \<Rightarrow>
          (case extract_archive zf of
             Inl e \<Rightarrow> Inl e
           | Inr (main_data, overlay_data) \<Rightarrow>
               if lower (media_type m) = ''image'' then merge_image env main_data overlay_data
               else if lower (media_type m) = ''video'' then merge_video env main_data overlay_data
               else Inl (ValueError (''Unsupported media type: '' @ media_type m))))"

text \<open>
  The body of the \<^verbatim>\<open>try\<close> of \<^verbatim>\<open>download_memory\<close>: the error raised or the byte count
  returned, and the world afterwards. Every branch that raises does so before the output
  file is written.
\<close>

definition download_memory_try ::
    "'img env \<Rightarrow> memory \<Rightarrow> bool \<Rightarrow> world \<Rightarrow> (error + nat) \<times> world" where
  "download_memory_try env m add_exif w =
     (let url = download_link m;
          output_path = filename m;
          w1 = emit m (HttpGet url) w
      in case fetch env url of
           Inl e \<Rightarrow> (Inl e, w1)
         | Inr (content_type, content) \<Rightarrow>
             (case (if is_zip content_type content then composite env m content else Inr content) of
                Inl e \<Rightarrow> (Inl e, w1)
              | Inr asset \<Rightarrow>
                  (let w2 = write_bytes env m output_path asset w1
                   in case utime m output_path (timestamp (date m)) w2 of
                        None \<Rightarrow> (Inl OSError, w2)
                      | Some w3 \<Rightarrow>
                          (let w4 =
                                 (if add_exif then
                                    (if lower (media_type m) = ''image''
                                       then add_exif_data env output_path m w3
                                     else if lower (media_type m) = ''video''
                                       then set_video_metadata env output_path m w3
                                     else w3)
                                  else w3)
                           in (Inr (length content), w4)))))"

text \<open>
  \<^verbatim>\<open>async with semaphore: try: ... return True, bytes_downloaded
  except Exception as e: ... return False, 0\<close>
\<close>

definition download_memory ::
    "'img env \<Rightarrow> memory \<Rightarrow> bool \<Rightarrow> world \<Rightarrow> (bool \<times> nat) \<times> world" where
  "download_memory env m add_exif w =
     (case download_memory_try env m add_exif (emit m Acquire w) of
        (Inl e, w') \<Rightarrow> ((False, 0), emit m Release w')
      | (Inr n, w') \<Rightarrow> ((True, n), emit m Release w'))"

text \<open>
  Two stages of a successful item, named for the statements below: the world once the output
  file is written and its times are set, and the metadata step that follows.
\<close>

definition persisted :: "'img env \<Rightarrow> memory \<Rightarrow> bytes \<Rightarrow> world \<Rightarrow> world" where
  "persisted env m asset w =
     emit m (Utime (filename m))
       ((write_bytes env m (filename m) asset (emit m (HttpGet (download_link m)) w))
          \<lparr>files := (files w)(filename m \<mapsto>
                       \<lparr>file_content = asset, file_mtime = timestamp (date m)\<rparr>)\<rparr>)"

definition apply_metadata :: "'img env \<Rightarrow> memory \<Rightarrow> bool \<Rightarrow> world \<Rightarrow> world" where
  "apply_metadata env m add_exif w =
     (if add_exif then
        (if lower (media_type m) = ''image'' then add_exif_data env (filename m) m w
         else if lower (media_type m) = ''video'' then set_video_metadata env (filename m) m w
         else w)
      else w)"

section \<open>The run\<close>

record stats =
  downloaded :: int
  skipped :: int
  failed :: int
  mb :: rat

text \<open>
  \<^verbatim>\<open>for memory in memories:
      output_path = output_dir / memory.filename
      if skip_existing and output_path.exists():
          stats.skipped += 1
      else:
          to_download.append(memory)\<close>
\<close>

fun schedule :: "bool \<Rightarrow> world \<Rightarrow> memory list \<Rightarrow> stats \<Rightarrow> memory list \<Rightarrow> stats \<times> memory list" where
  "schedule skip_existing w [] st to_download = (st, to_download)"
| "schedule skip_existing w (m # ms) st to_download =
     (if skip_existing \<and> files w (filename m) \<noteq> None
      then schedule skip_existing w ms (st\<lparr>skipped := skipped st + 1\<rparr>) to_download
      else schedule skip_existing w ms st (to_download @ [m]))"

text \<open>
  \<^verbatim>\<open>success, bytes_downloaded = await download_memory(memory, output_dir, add_exif, semaphore)
  if success: stats.downloaded += 1
  else: stats.failed += 1
  stats.mb += bytes_downloaded / 1024 / 1024\<close>
\<close>

definition process_and_update ::
    "'img env \<Rightarrow> bool \<Rightarrow> memory \<Rightarrow> stats \<times> world \<Rightarrow> stats \<times> world" where
  "process_and_update env add_exif m sw =
     (case sw of (st, w) \<Rightarrow>
        (case download_memory env m add_exif w of
           ((success, bytes_downloaded), w') \<Rightarrow>
             (let st1 = (if success then st\<lparr>downloaded := downloaded st + 1\<rparr>
                         else st\<lparr>failed := failed st + 1\<rparr>);
                  st2 = st1\<lparr>mb := float_add (mb st1)
                           (float_div (float_div (float_of_int (int bytes_downloaded)) 1024) 1024)\<rparr>
              in (st2, w'))))"

text \<open>
  \<^verbatim>\<open>await asyncio.gather(*[process_and_update(m) for m in to_download])\<close>. The coroutines
  run on one thread and yield only at an \<^verbatim>\<open>await\<close> (the gate, the HTTP exchange, closing
  the client): the file operations of one item are not interleaved with those of another,
  and neither is a counter update. The items complete one after another, in the order in
  which their responses arrive (\<open>arrival\<close> gives the arrival time of an item's response;
  \<open>download_all\<close> below orders the scheduled items by it).
\<close>

fun gather :: "'img env \<Rightarrow> bool \<Rightarrow> memory list \<Rightarrow> stats \<times> world \<Rightarrow> stats \<times> world" where
  "gather env add_exif [] sw = sw"
| "gather env add_exif (m # ms) sw = gather env add_exif ms (process_and_update env add_exif m sw)"

text \<open>
  \<^verbatim>\<open>download_all\<close>. \<^verbatim>\<open>asyncio.Semaphore(max_concurrent)\<close> raises for a negative bound;
  with bound 0 no item is ever admitted, so a run with scheduled items does not return.
  Otherwise the scheduled items complete in the order of \<open>arrival\<close>.
\<close>

datatype 'a outcome = Raised error | Hangs | Returned 'a

definition download_all ::
    "'img env \<Rightarrow> memory list \<Rightarrow> int \<Rightarrow> bool \<Rightarrow> bool \<Rightarrow> world \<Rightarrow> (stats \<times> world) outcome" where
  "download_all env memories max_concurrent add_exif skip_existing w =
     (if max_concurrent < 0 then Raised (ValueError ''Semaphore initial value must be >= 0'')
      else
        (case schedule skip_existing w memories
                \<lparr>downloaded = 0, skipped = 0, failed = 0, mb = 0\<rparr> [] of
           (st, to_download) \<Rightarrow>
             if to_download = [] then Returned (st, w)
             else if max_concurrent = 0 then Hangs
             else Returned (gather env add_exif (sort_key (arrival env) to_download) (st, w))))"

section \<open>The concurrency gate\<close>

text \<open>
  \<^verbatim>\<open>semaphore = asyncio.Semaphore(max_concurrent)\<close>, and every item runs its whole body
  inside \<^verbatim>\<open>async with semaphore:\<close>. The semaphore holds a counter: \<^verbatim>\<open>acquire\<close> proceeds
  only when the counter is positive and decrements it, \<^verbatim>\<open>release\<close> increments it. Items
  interleave in any order.
\<close>

datatype task = Waiting | Active | Done

record gate =
  permits :: nat
  tasks :: "task list"

definition initial_gate :: "nat \<Rightarrow> nat \<Rightarrow> gate" where
  "initial_gate k n = \<lparr>permits = k, tasks = replicate n Waiting\<rparr>"

inductive gate_step :: "gate \<Rightarrow> gate \<Rightarrow> bool" where
  acquire: "i < length (tasks g) \<Longrightarrow> tasks g ! i = Waiting \<Longrightarrow> 0 < permits g \<Longrightarrow>
            gate_step g \<lparr>permits = permits g - 1, tasks = (tasks g)[i := Active]\<rparr>"
| release: "i < length (tasks g) \<Longrightarrow> tasks g ! i = Active \<Longrightarrow>
            gate_step g \<lparr>permits = permits g + 1, tasks = (tasks g)[i := Done]\<rparr>"

inductive reachable :: "nat \<Rightarrow> nat \<Rightarrow> gate \<Rightarrow> bool" where
  start: "reachable k n (initial_gate k n)"
| step: "reachable k n g \<Longrightarrow> gate_step g g' \<Longrightarrow> reachable k n g'"

definition active_count :: "gate \<Rightarrow> nat" where
  "active_count g = length (filter (\<lambda>t. t = Active) (tasks g))"

section \<open>Sample data\<close>

text \<open>
  A small environment on which the definitions can be run: images are a size and a mode,
  the overlay merge of \<^verbatim>\<open>ffmpeg\<close> always fails, its metadata pass succeeds.
\<close>

type_synonym sample_image = "(nat \<times> nat) \<times> mode"

definition sample_zip_video :: bytes where
  "sample_zip_video = [0x50, 0x4B, 0x03, 0x04, 0x01]"

definition sample_zip_no_main :: bytes where
  "sample_zip_no_main = [0x50, 0x4B, 0x03, 0x04, 0x02]"

definition sample_zip_empty_overlay :: bytes where
  "sample_zip_empty_overlay = [0x50, 0x4B, 0x03, 0x04, 0x03]"

definition sample_zip_image :: bytes where
  "sample_zip_image = [0x50, 0x4B, 0x03, 0x04, 0x04]"

definition sample_plain :: bytes where
  "sample_plain = [0xFF, 0xD8, 0xFF, 0xE0]"

definition sample_http_get :: "string \<Rightarrow> http_result" where
  "sample_http_get url =
     (if url = ''https://cdn.test/video-with-overlay''
        then Response 200 (Some ''application/zip'') sample_zip_video
      else if url = ''https://cdn.test/no-main''
        then Response 200 None sample_zip_no_main
      else if url = ''https://cdn.test/plain''
        then Response 200 (Some ''application/octet-stream'') sample_plain
      else if url = ''https://cdn.test/image-empty-overlay''
        then Response 200 (Some ''application/zip'') sample_zip_empty_overlay
      else if url = ''https://cdn.test/image-with-overlay''
        then Response 200 (Some ''application/zip'') sample_zip_image
      else ConnectFailure)"

definition sample_zip_read :: "(string \<times> bytes) list \<Rightarrow> string \<Rightarrow> bytes option" where
  "sample_zip_read entries name = map_of (rev entries) name"

definition sample_zip :: "(string \<times> bytes) list \<Rightarrow> zip_file" where
  "sample_zip entries = \<lparr>zip_namelist = map fst entries, zip_read = sample_zip_read entries\<rparr>"

definition sample_zip_open :: "bytes \<Rightarrow> zip_file option" where
  "sample_zip_open b =
     (if b = sample_zip_video
        then Some (sample_zip [(''2020-main.mp4'', [0x0A, 0x0B, 0x0C]), (''2020-overlay.png'', [0x09])])
      else if b = sample_zip_no_main
        then Some (sample_zip [(''2020-overlay.png'', [0x09])])
      else if b = sample_zip_empty_overlay
        then Some (sample_zip [(''2020-main.jpg'', [0x0A, 0x0B, 0x0C]), (''2020-overlay.png'', [])])
      else if b = sample_zip_image
        then Some (sample_zip [(''2020-main.jpg'', [0x0A, 0x0B, 0x0C]), (''2020-overlay.png'', [0x09])])
      else None)"

definition sample_image_open :: "bytes \<Rightarrow> sample_image option" where
  "sample_image_open b = (if b = [] then None else Some ((length b, length b), RGB))"

definition sample_alpha_composite :: "sample_image \<Rightarrow> sample_image \<Rightarrow> sample_image option" where
  "sample_alpha_composite a b =
     (if fst a = fst b \<and> snd a = RGBA \<and> snd b = RGBA then Some a else None)"

definition sample_save_jpeg :: "sample_image \<Rightarrow> bytes option" where
  "sample_save_jpeg i = (if snd i = RGB then Some [0xFF, 0xD8] else None)"

definition sample_ffmpeg_overlay :: "bytes \<Rightarrow> bytes \<Rightarrow> proc_result" where
  "sample_ffmpeg_overlay main_data overlay_data = Exited 1 None"

definition sample_ffmpeg_metadata :: "bytes \<Rightarrow> video_metadata \<Rightarrow> proc_result" where
  "sample_ffmpeg_metadata data meta = Exited 0 (Some (data @ [0xEE]))"

definition sample_exif_load :: "bytes \<Rightarrow> exif_dict option" where
  "sample_exif_load data = None"

definition sample_exif_insert :: "exif_dict \<Rightarrow> bytes \<Rightarrow> bytes option" where
  "sample_exif_insert e data = Some (0xE1 # data)"

definition sample_env :: "sample_image env" where
  "sample_env =
     \<lparr>http_get = sample_http_get,
      zip_open = sample_zip_open,
      image_open = sample_image_open,
      image_size = fst,
      image_mode = snd,
      image_convert = (\<lambda>i md. (fst i, md)),
      image_resize = (\<lambda>i sz f. (sz, snd i)),
      image_alpha_composite = sample_alpha_composite,
      image_save_jpeg = sample_save_jpeg,
      ffmpeg_overlay = sample_ffmpeg_overlay,
      ffmpeg_metadata = sample_ffmpeg_metadata,
      exif_load = sample_exif_load,
      exif_insert = sample_exif_insert,
      clock = 1700000000,
      arrival = (\<lambda>m. length (download_link m))\<rparr>"

definition sample_date :: datetime where
  "sample_date = \<lparr>instant = 1577880000, utcoffset = - 28800\<rparr>"

definition sample_memory :: "string \<Rightarrow> string \<Rightarrow> memory" where
  "sample_memory kind url =
     \<lparr>date = sample_date, media_type = kind, download_link = url, location = [],
      latitude = None, longitude = None\<rparr>"

definition noon_2020 :: civil where
  "noon_2020 = \<lparr>year = 2020, month = 1, day = 1, hour = 12, minute = 0, second = 0\<rparr>"

definition san_francisco :: memory where
  "san_francisco =
     \<lparr>date = sample_date, media_type = ''Image'', download_link = ''https://cdn.test/plain'',
      location = ''Latitude, Longitude: 37.7749, -122.4194'',
      latitude = Some (fl (377749 / 10000)), longitude = Some (fl (- 1224194 / 10000))\<rparr>"

definition empty_world :: world where
  "empty_world = \<lparr>files = Map.empty, trace = []\<rparr>"

definition sample_world :: world where
  "sample_world =
     \<lparr>files = [''2020-01-01_04-00-00.jpg'' \<mapsto> \<lparr>file_content = [0xFF, 0xD8], file_mtime = 0\<rparr>],
      trace = []\<rparr>"

definition sample_manifest :: "memory list" where
  "sample_manifest =
     [sample_memory ''Image'' ''https://cdn.test/plain'',
      sample_memory ''Audio'' ''https://cdn.test/no-main'',
      sample_memory ''Video'' ''https://cdn.test/video-with-overlay'']"

text \<open>A manifest entry without a location, and the first instant of year 1.\<close>

definition sample_entry :: manifest_entry where
  "sample_entry =
     \<lparr>entry_date = ''2020-01-01 12:00:00 UTC'', entry_media_type = ''Image'',
      entry_download_link = ''https://cdn.test/plain'', entry_location = None,
      entry_latitude = None, entry_longitude = None\<rparr>"

definition first_of_year_1 :: civil where
  "first_of_year_1 = \<lparr>year = 1, month = 1, day = 1, hour = 0, minute = 0, second = 0\<rparr>"

text \<open>A gate of size 3 over 10 items after three of them were admitted.\<close>

definition three_admitted :: gate where
  "three_admitted =
     \<lparr>permits = 0,
      tasks = [Active, Active, Active, Waiting, Waiting, Waiting, Waiting, Waiting, Waiting, Waiting]\<rparr>"

section \<open>Properties\<close>

subsection \<open>Payload classification\<close>

lemma lower_archive_prefix: "map lower_char ''application/zip'' = ''application/zip''"
  by (simp add: lower_char_def)

lemma caseless_prefix:
  assumes "map f p = p"
  shows "(length p \<le> length s \<and> map f (take (length p) s) = map f p)
         = (take (length p) (map f s) = p)"
proof
  assume "length p \<le> length s \<and> map f (take (length p) s) = map f p"
  then show "take (length p) (map f s) = p"
    using assms by (simp add: take_map)
next
  assume t: "take (length p) (map f s) = p"
  then have "length (take (length p) (map f s)) = length p" by simp
  then have "length p \<le> length s" by simp
  with t show "length p \<le> length s \<and> map f (take (length p) s) = map f p"
    using assms by (simp add: take_map)
qed

lemma begins_caseless_startswith:
  "begins_caseless s ''application/zip'' = startswith (lower s) ''application/zip''"
  unfolding begins_caseless_def startswith_def lower_def
  by (rule caseless_prefix [OF lower_archive_prefix])

lemma take4_signature:
  "(take 4 content = zip_signature) = (\<exists>rest. content = 0x50 # 0x4B # 0x03 # 0x04 # rest)"
proof
  assume t: "take 4 content = zip_signature"
  have "content = take 4 content @ drop 4 content" by simp
  with t have "content = 0x50 # 0x4B # 0x03 # 0x04 # drop 4 content"
    by (simp add: zip_signature_def)
  then show "\<exists>rest. content = 0x50 # 0x4B # 0x03 # 0x04 # rest" by blast
next
  assume "\<exists>rest. content = 0x50 # 0x4B # 0x03 # 0x04 # rest"
  then show "take 4 content = zip_signature"
    by (auto simp: zip_signature_def)
qed

text \<open>
  C2. A payload is classified as a composite archive exactly when the declared content
  type, compared without regard to case, begins with \<^verbatim>\<open>application/zip\<close>, or its first
  four bytes are \<open>0x50 0x4B 0x03 0x04\<close>; bytes beginning with that signature are classified
  composite whatever the content type is, also when the header is absent.
\<close>

theorem payload_classification:
  "is_zip content_type content = spec_is_composite content_type content
   \<and> is_zip any_type (0x50 # 0x4B # 0x03 # 0x04 # rest)"
proof
  show "is_zip content_type content = spec_is_composite content_type content"
  proof (cases content_type)
    case None
    then show ?thesis
      by (simp add: is_zip_def spec_is_composite_def headers_get_def take4_signature
          startswith_def lower_def)
  next
    case (Some ct)
    then show ?thesis
      by (simp add: is_zip_def spec_is_composite_def headers_get_def take4_signature
          begins_caseless_startswith)
  qed
  show "is_zip any_type (0x50 # 0x4B # 0x03 # 0x04 # rest)"
    by (simp add: is_zip_def zip_signature_def)
qed

theorem payload_classification_witness:
  "is_zip (Some ''Application/ZIP; charset=binary'') [] 
   \<and> is_zip None [0x50, 0x4B, 0x03, 0x04, 0x14]
   \<and> is_zip (Some ''image/jpeg'') [0x50, 0x4B, 0x03, 0x04, 0x14]
   \<and> \<not> is_zip (Some ''image/jpeg'') [0xFF, 0xD8, 0xFF]"
proof -
  have a: "spec_is_composite (Some ''Application/ZIP; charset=binary'') []"
    by (simp add: spec_is_composite_def begins_caseless_def lower_char_def)
  have b: "\<not> spec_is_composite (Some ''image/jpeg'') [0xFF, 0xD8, 0xFF]"
    by (simp add: spec_is_composite_def begins_caseless_def lower_char_def)
  show ?thesis
    using a b
      payload_classification [of "Some ''Application/ZIP; charset=binary''" "[]" None "[0x14]"]
      payload_classification [of "Some ''image/jpeg''" "[0xFF, 0xD8, 0xFF]" "Some ''image/jpeg''" "[0x14]"]
    by simp
qed

subsection \<open>Capture times\<close>

lemma digit_range: "0 \<le> k \<Longrightarrow> k < 10 \<Longrightarrow> k \<in> {0, 1, 2, 3, 4, 5, 6, 7, 8, 9 :: int}"
  by simp presburger

lemma digit_char_props:
  assumes "0 \<le> k" "k < 10"
  shows "is_digit (digit_char k)" and "digit_val (digit_char k) = k"
  using digit_range [OF assms]
  by (auto simp: is_digit_def digit_char_def digit_val_def)

lemma digits_val_two: "0 \<le> n \<Longrightarrow> n < 100 \<Longrightarrow> digits_val (two_digits n) = n"
  by (simp add: digits_val_def two_digits_def digit_char_props) 

lemma dec4:
  fixes n :: int
  assumes "0 \<le> n" "n < 10000"
  shows "1000 * (n div 1000 mod 10) + 100 * (n div 100 mod 10) + 10 * (n div 10 mod 10) + n mod 10 = n"
proof -
  define q1 where "q1 = n div 10"
  define q2 where "q2 = n div 100"
  define q3 where "q3 = n div 1000"
  have e2: "q2 = q1 div 10"
    unfolding q1_def q2_def using zdiv_zmult2_eq [of 10 n 10] by simp
  have e3: "q3 = q2 div 10"
    unfolding q2_def q3_def using zdiv_zmult2_eq [of 10 n 100] by simp
  have a: "n = 10 * q1 + n mod 10" unfolding q1_def by simp
  have b: "q1 = 10 * q2 + q1 mod 10" unfolding e2 by simp
  have c: "q2 = 10 * q3 + q2 mod 10" unfolding e3 by simp
  have "0 \<le> q3" "q3 < 10" unfolding q3_def using assms by linarith+
  then have d: "q3 mod 10 = q3" by simp
  have "1000 * (q3 mod 10) + 100 * (q2 mod 10) + 10 * (q1 mod 10) + n mod 10 = n"
    unfolding d using a b c by linarith
  then show ?thesis unfolding q1_def q2_def q3_def .
qed

lemma digits_val_four: "0 \<le> n \<Longrightarrow> n < 10000 \<Longrightarrow> digits_val (four_digits n) = n"
proof -
  assume n: "0 \<le> n" "n < 10000"
  have "digits_val (four_digits n)
      = 1000 * (n div 1000 mod 10) + 100 * (n div 100 mod 10) + 10 * (n div 10 mod 10) + n mod 10"
    by (simp add: digits_val_def four_digits_def digit_char_props)
  also have "\<dots> = n" using n by (rule dec4)
  finally show ?thesis .
qed

lemma two_digits_all: "list_all is_digit (two_digits n)"
  by (simp add: two_digits_def digit_char_props)

lemma number_field_two:
  assumes "0 \<le> n" "n < 100" "lo \<le> n" "n \<le> hi" "\<not> is_digit c"
  shows "number_field lo hi (two_digits n @ c # rest) = Some (n, c # rest)"
proof -
  have d: "is_digit (digit_char (n div 10 mod 10))" "is_digit (digit_char (n mod 10))"
    by (simp_all add: digit_char_props)
  have tw: "takeWhile is_digit (two_digits n @ c # rest) = two_digits n"
    using d assms(5) by (simp add: two_digits_def)
  have dw: "dropWhile is_digit (two_digits n @ c # rest) = c # rest"
    using d assms(5) by (simp add: two_digits_def)
  have len: "length (two_digits n) = 2" by (simp add: two_digits_def)
  show ?thesis
    unfolding number_field_def tw dw using assms len by (simp add: digits_val_two Let_def)
qed

lemma year_field_four:
  assumes "0 \<le> y" "y < 10000"
  shows "year_field (four_digits y @ rest) = Some (y, rest)"
proof -
  have len: "length (four_digits y) = 4" by (simp add: four_digits_def)
  have dig: "list_all is_digit (four_digits y)"
    by (simp add: four_digits_def digit_char_props)
  show ?thesis
    unfolding year_field_def using len dig assms by (simp add: digits_val_four)
qed

lemma not_digit_seps:
  "\<not> is_digit CHR ''-''" "\<not> is_digit CHR '':''" "\<not> is_digit CHR '' ''"
  by (simp_all add: is_digit_def)

lemma digit_not_space: "is_digit ch \<Longrightarrow> \<not> is_space ch"
  by (auto simp: is_digit_def is_space_def)

lemma dropWhile_space_two: "dropWhile is_space (two_digits n @ r) = two_digits n @ r"
proof -
  have "\<not> is_space (digit_char (n div 10 mod 10))"
    by (simp add: digit_not_space digit_char_props)
  then show ?thesis by (simp add: two_digits_def)
qed

lemma strptime_capture_time:
  assumes "valid_civil c"
  shows "strptime (capture_time_text c @ '' UTC'') = Inr c"
proof -
  have dim: "days_in_month (year c) (month c) \<le> 31"
    by (simp add: days_in_month_def)
  from assms dim have r:
    "0 \<le> year c" "year c < 10000" "1 \<le> year c"
    "0 \<le> month c" "month c < 100" "1 \<le> month c" "month c \<le> 12"
    "0 \<le> day c" "day c < 100" "1 \<le> day c" "day c \<le> 31"
    "day c \<le> days_in_month (year c) (month c)"
    "0 \<le> hour c" "hour c < 100" "hour c \<le> 23"
    "0 \<le> minute c" "minute c < 100" "minute c \<le> 59"
    "0 \<le> second c" "second c < 100" "second c \<le> 59" "second c \<le> 61"
    by (simp_all add: valid_civil_def)
  show ?thesis
    unfolding strptime_def capture_time_text_def
    using r
    by (simp add: year_field_four number_field_two not_digit_seps day_field_def
        literal_def spaces1_def is_space_def lower_char_def dropWhile_space_two)
qed

lemma number_field_two_end:
  assumes "0 \<le> n" "n < 100" "lo \<le> n" "n \<le> hi"
  shows "number_field lo hi (two_digits n) = Some (n, [])"
proof -
  have d: "is_digit (digit_char (n div 10 mod 10))" "is_digit (digit_char (n mod 10))"
    by (simp_all add: digit_char_props)
  have tw: "takeWhile is_digit (two_digits n) = two_digits n"
    using d by (simp add: two_digits_def)
  have dw: "dropWhile is_digit (two_digits n) = []"
    using d by (simp add: two_digits_def)
  have len: "length (two_digits n) = 2" by (simp add: two_digits_def)
  show ?thesis
    unfolding number_field_def tw dw using assms len by (simp add: digits_val_two Let_def)
qed

lemma valid_civil_ranges:
  assumes "valid_civil c"
  shows "0 \<le> year c" "year c < 10000" "1 \<le> year c"
    "0 \<le> month c" "month c < 100" "1 \<le> month c" "month c \<le> 12"
    "0 \<le> day c" "day c < 100" "1 \<le> day c" "day c \<le> 31"
    "day c \<le> days_in_month (year c) (month c)"
    "0 \<le> hour c" "hour c < 100" "hour c \<le> 23"
    "0 \<le> minute c" "minute c < 100" "minute c \<le> 59"
    "0 \<le> second c" "second c < 100" "second c \<le> 59" "second c \<le> 61"
proof -
  have dim: "days_in_month (year c) (month c) \<le> 31"
    by (simp add: days_in_month_def)
  from assms dim show "0 \<le> year c" "year c < 10000" "1 \<le> year c"
    "0 \<le> month c" "month c < 100" "1 \<le> month c" "month c \<le> 12"
    "0 \<le> day c" "day c < 100" "1 \<le> day c" "day c \<le> 31"
    "day c \<le> days_in_month (year c) (month c)"
    "0 \<le> hour c" "hour c < 100" "hour c \<le> 23"
    "0 \<le> minute c" "minute c < 100" "minute c \<le> 59"
    "0 \<le> second c" "second c < 100" "second c \<le> 59" "second c \<le> 61"
    by (simp_all add: valid_civil_def)
qed

lemma strptime_without_zone:
  assumes "valid_civil c"
  shows "strptime (capture_time_text c) = Inl (ValueError ''time data does not match format'')"
  unfolding strptime_def capture_time_text_def
  using valid_civil_ranges [OF assms]
  by (simp add: year_field_four number_field_two number_field_two_end not_digit_seps day_field_def
      literal_def spaces1_def is_space_def lower_char_def dropWhile_space_two)

subsection \<open>GPS coordinates in the image metadata\<close>

lemma py_int_truncates:
  "\<bar>of_int (py_int y)\<bar> \<le> \<bar>y\<bar> \<and> \<bar>y - of_int (py_int y)\<bar> < 1"
proof (cases "0 \<le> y")
  case True
  then have "py_int y = \<lfloor>y\<rfloor>" by (simp add: py_int_def)
  moreover have "of_int \<lfloor>y\<rfloor> \<le> y" "y < of_int \<lfloor>y\<rfloor> + 1" "(0::rat) \<le> of_int \<lfloor>y\<rfloor>"
    using True floor_correct [of y] by simp_all
  ultimately show ?thesis by simp
next
  case False
  then have "py_int y = \<lceil>y\<rceil>" by (simp add: py_int_def)
  moreover have "y \<le> of_int \<lceil>y\<rceil>" "of_int \<lceil>y\<rceil> < y + 1" "of_int \<lceil>y\<rceil> \<le> (0::rat)"
    using False ceiling_correct [of y] by (simp_all add: ceiling_le_iff)
  ultimately show ?thesis by simp
qed

lemma py_int_truncate: "py_int x = truncate_toward_zero x"
  by (simp add: py_int_def truncate_toward_zero_def ceiling_def)

lemma round_half_even_near: "\<bar>of_int (round_half_even y) - y\<bar> \<le> 1 / 2"
proof -
  have "of_int \<lfloor>y\<rfloor> \<le> y" "y < of_int \<lfloor>y\<rfloor> + 1"
    using floor_correct [of y] by simp_all
  then show ?thesis by (auto simp: round_half_even_def Let_def)
qed

lemma round_to_millionths_near: "\<bar>round_to_millionths x - x\<bar> \<le> 1 / 2000000"
proof -
  have "\<bar>of_int (round_half_even (x * 1000000)) - x * 1000000\<bar> \<le> 1 / 2"
    by (rule round_half_even_near)
  then show ?thesis by (simp add: round_to_millionths_def field_simps abs_le_iff)
qed

lemma py_round_millionths: "py_round x 6 = fl (round_to_millionths x)"
  by (simp add: py_round_def round_to_millionths_def)

lemma to_deg_truncating: "deg_to_rational (to_deg v) = dms_truncating v"
  by (simp add: to_deg_def deg_to_rational_def dms_truncating_def Let_def py_int_truncate
      py_round_millionths float_mul_def float_sub_def float_of_int_def truncate_toward_zero_def)

text \<open>
  The parts of the conversion of a coordinate \<open>v\<close>: the degrees \<open>d\<close> are the whole part of
  \<open>\<bar>v\<bar>\<close>; the minutes \<open>mi\<close> are the float \<open>mf\<close> cut toward zero; the seconds \<open>s\<close> are the
  float \<open>x\<close> rounded to the nearest millionth; the numerator \<open>c\<close> is \<open>s * 100\<close> cut toward
  zero.
\<close>

lemma to_deg_parts:
  "\<exists>d mf mi x s c.
      to_deg v = (d, mi, s)
    \<and> deg_to_rational (to_deg v) = [(d, 1), (mi, 1), (c, 100)]
    \<and> 0 \<le> d \<and> of_int d \<le> \<bar>v\<bar> \<and> \<bar>v\<bar> < of_int d + 1
    \<and> mf = fl (fl (\<bar>v\<bar> - fl (of_int d)) * 60)
    \<and> \<bar>of_int mi\<bar> \<le> \<bar>mf\<bar> \<and> \<bar>mf - of_int mi\<bar> < 1
    \<and> x = fl (fl (mf - fl (of_int mi)) * 60)
    \<and> s = fl (round_to_millionths x)
    \<and> \<bar>round_to_millionths x - x\<bar> \<le> 1 / 2000000
    \<and> \<bar>of_int c\<bar> \<le> \<bar>fl (s * 100)\<bar> \<and> \<bar>fl (s * 100) - of_int c\<bar> < 1"
proof -
  let ?d = "py_int \<bar>v\<bar>"
  let ?mf = "fl (fl (\<bar>v\<bar> - fl (of_int ?d)) * 60)"
  let ?mi = "py_int ?mf"
  let ?x = "fl (fl (?mf - fl (of_int ?mi)) * 60)"
  let ?s = "fl (round_to_millionths ?x)"
  let ?c = "py_int (fl (?s * 100))"
  have t: "to_deg v = (?d, ?mi, ?s)"
    by (simp add: to_deg_def Let_def py_round_millionths float_mul_def float_sub_def float_of_int_def)
  have r: "deg_to_rational (to_deg v) = [(?d, 1), (?mi, 1), (?c, 100)]"
    unfolding t by (simp add: deg_to_rational_def float_mul_def)
  have d: "?d = \<lfloor>\<bar>v\<bar>\<rfloor>" by (simp add: py_int_def)
  have d0: "0 \<le> ?d" unfolding d by simp
  have d1: "of_int ?d \<le> \<bar>v\<bar>" "\<bar>v\<bar> < of_int ?d + 1"
    unfolding d using floor_correct [of "\<bar>v\<bar>"] by simp_all
  have mi: "\<bar>of_int ?mi\<bar> \<le> \<bar>?mf\<bar>" "\<bar>?mf - of_int ?mi\<bar> < 1"
    using py_int_truncates [of ?mf] by simp_all
  have c: "\<bar>of_int ?c\<bar> \<le> \<bar>fl (?s * 100)\<bar>" "\<bar>fl (?s * 100) - of_int ?c\<bar> < 1"
    using py_int_truncates [of "fl (?s * 100)"] by simp_all
  have n: "\<bar>round_to_millionths ?x - ?x\<bar> \<le> 1 / 2000000" by (rule round_to_millionths_near)
  show ?thesis
    using t r d0 d1 mi c n by blast
qed

lemma set_exif_tags_gps:
  assumes "latitude m = Some lat" and "longitude m = Some lon"
  shows "set_exif_tags m e GPSIFD_GPSLatitudeRef = Some (Ascii (if 0 \<le> lat then ''N'' else ''S''))"
    and "set_exif_tags m e GPSIFD_GPSLongitudeRef = Some (Ascii (if 0 \<le> lon then ''E'' else ''W''))"
    and "set_exif_tags m e GPSIFD_GPSLatitude = Some (Rationals (deg_to_rational (to_deg lat)))"
    and "set_exif_tags m e GPSIFD_GPSLongitude = Some (Rationals (deg_to_rational (to_deg lon)))"
  using assms by (simp_all add: set_exif_tags_def set_gps_tags_def Let_def)

lemma to_deg_37_7749:
  "deg_to_rational (to_deg (fl (377749 / 10000))) = [(37, 1), (46, 1), (2964, 100)]"
  by code_simp

lemma to_deg_122_4194:
  "deg_to_rational (to_deg (fl (- 1224194 / 10000))) = [(122, 1), (25, 1), (984, 100)]"
  by code_simp

lemma dms_value_37_7749:
  "\<bar>dms_value [(37, 1), (46, 1), (2964, 100)] - 377749 / 10000\<bar> \<le> 1 / 10000"
  by (simp add: dms_value_def)

text \<open>
  C6 (as amended). For a record with known coordinates the image metadata writer sets the
  hemisphere references from the signs (N for latitude \<open>\<ge> 0\<close> else S, E for longitude
  \<open>\<ge> 0\<close> else W) and writes each coordinate as degrees, minutes and seconds, where the
  seconds are rounded to 6 decimal digits and then truncated toward zero to whole hundredths,
  encoded with denominator 100. For every coordinate \<open>v\<close> the triple written is the one
  of the truncating conversion \<open>dms_truncating\<close>: the degrees are the whole part of
  \<open>\<bar>v\<bar>\<close>, the minutes are cut toward zero, the seconds lie within half a millionth of
  the float they are rounded from, and the numerator over 100 is cut toward zero. Latitude
  37.7749 is written as \<open>[(37,1),(46,1),(2964,100)]\<close>, which reads back within 0.0001
  degrees of 37.7749.
\<close>

theorem gps_encoding:
  assumes "latitude m = Some lat" and "longitude m = Some lon"
  shows "set_exif_tags m e GPSIFD_GPSLatitudeRef = Some (Ascii (if 0 \<le> lat then ''N'' else ''S''))
       \<and> set_exif_tags m e GPSIFD_GPSLongitudeRef
           = Some (Ascii (if 0 \<le> lon then ''E'' else ''W''))
       \<and> set_exif_tags m e GPSIFD_GPSLatitude = Some (Rationals (deg_to_rational (to_deg lat)))
       \<and> set_exif_tags m e GPSIFD_GPSLongitude = Some (Rationals (deg_to_rational (to_deg lon)))
       \<and> deg_to_rational (to_deg v) = dms_truncating v
       \<and> (\<exists>d mf mi x s c.
              to_deg v = (d, mi, s)
            \<and> deg_to_rational (to_deg v) = [(d, 1), (mi, 1), (c, 100)]
            \<and> 0 \<le> d \<and> of_int d \<le> \<bar>v\<bar> \<and> \<bar>v\<bar> < of_int d + 1
            \<and> mf = fl (fl (\<bar>v\<bar> - fl (of_int d)) * 60)
            \<and> \<bar>of_int mi\<bar> \<le> \<bar>mf\<bar> \<and> \<bar>mf - of_int mi\<bar> < 1
            \<and> x = fl (fl (mf - fl (of_int mi)) * 60)
            \<and> s = fl (round_to_millionths x)
            \<and> \<bar>round_to_millionths x - x\<bar> \<le> 1 / 2000000
            \<and> \<bar>of_int c\<bar> \<le> \<bar>fl (s * 100)\<bar> \<and> \<bar>fl (s * 100) - of_int c\<bar> < 1)
       \<and> deg_to_rational (to_deg (fl (377749 / 10000))) = [(37, 1), (46, 1), (2964, 100)]
       \<and> \<bar>dms_value [(37, 1), (46, 1), (2964, 100)] - 377749 / 10000\<bar> \<le> 1 / 10000"
  using set_exif_tags_gps [OF assms, of e] to_deg_truncating [of v] to_deg_parts [of v]
    to_deg_37_7749 dms_value_37_7749
  by blast

theorem gps_encoding_witness:
  "latitude san_francisco = Some (fl (377749 / 10000))
   \<and> longitude san_francisco = Some (fl (- 1224194 / 10000))
   \<and> set_exif_tags san_francisco Map.empty GPSIFD_GPSLatitudeRef = Some (Ascii ''N'')
   \<and> set_exif_tags san_francisco Map.empty GPSIFD_GPSLongitudeRef = Some (Ascii ''W'')
   \<and> set_exif_tags san_francisco Map.empty GPSIFD_GPSLatitude
       = Some (Rationals [(37, 1), (46, 1), (2964, 100)])
   \<and> set_exif_tags san_francisco Map.empty GPSIFD_GPSLongitude
       = Some (Rationals [(122, 1), (25, 1), (984, 100)])
   \<and> dms_truncating (fl (- 1224194 / 10000)) = [(122, 1), (25, 1), (984, 100)]"
proof -
  have la: "latitude san_francisco = Some (fl (377749 / 10000))"
    and lo: "longitude san_francisco = Some (fl (- 1224194 / 10000))"
    by (simp_all add: san_francisco_def)
  have p: "0 \<le> fl (377749 / 10000)" by code_simp
  have n: "\<not> 0 \<le> fl (- 1224194 / 10000)" by code_simp
  from gps_encoding [OF la lo, where e = Map.empty and v = "fl (- 1224194 / 10000)"]
  have "set_exif_tags san_francisco Map.empty GPSIFD_GPSLatitudeRef
          = Some (Ascii (if 0 \<le> fl (377749 / 10000) then ''N'' else ''S''))"
    and "set_exif_tags san_francisco Map.empty GPSIFD_GPSLongitudeRef
          = Some (Ascii (if 0 \<le> fl (- 1224194 / 10000) then ''E'' else ''W''))"
    and "set_exif_tags san_francisco Map.empty GPSIFD_GPSLatitude
          = Some (Rationals (deg_to_rational (to_deg (fl (377749 / 10000)))))"
    and "set_exif_tags san_francisco Map.empty GPSIFD_GPSLongitude
          = Some (Rationals (deg_to_rational (to_deg (fl (- 1224194 / 10000)))))"
    and "deg_to_rational (to_deg (fl (- 1224194 / 10000))) = dms_truncating (fl (- 1224194 / 10000))"
    by blast+
  then show ?thesis
    using la lo p n by (simp only: to_deg_37_7749 to_deg_122_4194 if_True if_False simp_thms)
qed

text \<open>
  The seconds are not rounded to two decimal digits: for latitude 37.77491 they are 29.676,
  which the writer encodes as 2967/100, while rounding gives 29.68.
\<close>

theorem gps_seconds_rounding_counterexample:
  "deg_to_rational (to_deg (fl (3777491 / 100000))) = [(37, 1), (46, 1), (2967, 100)]
   \<and> spec_dms (fl (3777491 / 100000)) = [(37, 1), (46, 1), (2968, 100)]"
proof
  show "deg_to_rational (to_deg (fl (3777491 / 100000))) = [(37, 1), (46, 1), (2967, 100)]"
    by code_simp
  show "spec_dms (fl (3777491 / 100000)) = [(37, 1), (46, 1), (2968, 100)]"
    by code_simp
qed

subsection \<open>File names\<close>

lemma digit_char_mod: "is_digit (digit_char (n mod 10))"
  by (rule digit_char_props) simp_all

lemma is_digit_not_dot: "is_digit c \<Longrightarrow> c \<noteq> CHR ''.''"
  by (auto simp: is_digit_def)

lemma digit_char_not_dot: "CHR ''.'' \<noteq> digit_char (n mod 10)"
  using is_digit_not_dot [OF digit_char_mod, of n] by simp

lemma two_digits_no_dot: "CHR ''.'' \<notin> set (two_digits n)"
  by (simp add: two_digits_def digit_char_not_dot)

lemma four_digits_no_dot: "CHR ''.'' \<notin> set (four_digits n)"
  by (simp add: four_digits_def digit_char_not_dot)

lemma decimal_no_dot: "CHR ''.'' \<notin> set (decimal n)"
proof (induction n rule: decimal.induct)
  case (1 n)
  show ?case
  proof (cases "n < 10")
    case True
    then show ?thesis by (subst decimal.simps) (simp add: digit_char_not_dot)
  next
    case False
    then show ?thesis using 1 by (subst decimal.simps) (simp add: digit_char_not_dot)
  qed
qed

lemma decimal_not_empty: "decimal n \<noteq> []"
  by (subst decimal.simps) simp

lemma stamp_no_dot: "CHR ''.'' \<notin> set (strftime_stamp dt)"
  by (simp add: strftime_stamp_def Let_def two_digits_no_dot decimal_no_dot)

lemma stamp_not_empty: "strftime_stamp dt \<noteq> []"
  by (simp add: strftime_stamp_def Let_def decimal_not_empty)

lemma dots_no_dot: "CHR ''.'' \<notin> set s \<Longrightarrow> dots s = 0"
  by (induction s) (auto simp: dots_def)

lemma dots_append: "dots (a @ b) = dots a + dots b"
  by (simp add: dots_def)

lemma dots_filename: "dots (filename m) = 1"
  by (simp add: filename_def dots_append dots_no_dot [OF stamp_no_dot]) (simp add: dots_def)

lemma with_suffix_stamp:
  assumes "CHR ''.'' \<notin> set s" "s \<noteq> []" "ext = ''.jpg'' \<or> ext = ''.mp4''"
  shows "with_suffix (s @ ext) suffix = s @ suffix"
proof -
  have tw: "takeWhile (\<lambda>c. c \<noteq> CHR ''.'') (rev (s @ ext)) = rev (tl ext)"
    using assms(3) by auto
  have len: "length (rev (tl ext)) = 3" "length ext = 4"
    using assms(3) by auto
  have "suffix_of (s @ ext) = ext"
    unfolding suffix_of_def tw using assms len by (auto simp: Let_def)
  then show ?thesis by (simp add: with_suffix_def)
qed

lemma with_suffix_filename:
  "with_suffix (filename m) suffix = strftime_stamp (date m) @ suffix"
  unfolding filename_def
  by (rule with_suffix_stamp [OF stamp_no_dot stamp_not_empty]) simp

lemma dots_temp_path: "dots (with_suffix (filename m) ''.temp.mp4'') = 2"
  by (simp add: with_suffix_filename dots_append dots_no_dot [OF stamp_no_dot]) (simp add: dots_def)

lemma temp_path_not_filename: "with_suffix (filename m) ''.temp.mp4'' \<noteq> filename m'"
proof
  assume "with_suffix (filename m) ''.temp.mp4'' = filename m'"
  then have "dots (with_suffix (filename m) ''.temp.mp4'') = dots (filename m')" by simp
  then show False by (simp add: dots_temp_path dots_filename)
qed

subsection \<open>Effects on the output directory and the trace\<close>

lemma files_emit: "files (emit m e w) = files w"
  by (simp add: emit_def)

lemma trace_emit: "trace (emit m e w) = trace w @ [(m, e)]"
  by (simp add: emit_def)

lemma files_write_bytes:
  "files (write_bytes env m p d w) = (files w)(p \<mapsto> \<lparr>file_content = d, file_mtime = clock env\<rparr>)"
  by (simp add: write_bytes_def files_emit)

lemma trace_write_bytes: "trace (write_bytes env m p d w) = trace w @ [(m, WriteFile p)]"
  by (simp add: write_bytes_def trace_emit)

lemma utime_Some:
  assumes "utime m p ts w = Some w'"
  shows "\<exists>f. files w p = Some f \<and> files w' = (files w)(p \<mapsto> f\<lparr>file_mtime := ts\<rparr>)"
    and "trace w' = trace w @ [(m, Utime p)]"
  using assms by (auto simp: utime_def files_emit trace_emit split: option.splits)

lemma utime_exists: "files w p = Some f \<Longrightarrow> \<exists>w'. utime m p ts w = Some w'"
  by (simp add: utime_def)

text \<open>An operation of item \<open>m\<close> changes only the files named in \<open>S\<close> and adds only
  events of \<open>m\<close> to the trace.\<close>

lemma confined_refl: "confined m S w w"
  by (simp add: confined_def)

lemma confined_trans:
  assumes "confined m S w w'" "confined m S w' w''"
  shows "confined m S w w''"
proof -
  from assms(1) obtain evs where 1: "\<forall>x. x \<notin> S \<longrightarrow> files w' x = files w x"
    "trace w' = trace w @ evs" "fst ` set evs \<subseteq> {m}"
    unfolding confined_def by blast
  from assms(2) obtain evs' where 2: "\<forall>x. x \<notin> S \<longrightarrow> files w'' x = files w' x"
    "trace w'' = trace w' @ evs'" "fst ` set evs' \<subseteq> {m}"
    unfolding confined_def by blast
  have "trace w'' = trace w @ (evs @ evs')" "fst ` set (evs @ evs') \<subseteq> {m}"
    using 1 2 by auto
  then have "\<exists>e. trace w'' = trace w @ e \<and> fst ` set e \<subseteq> {m}" by blast
  then show ?thesis using 1(1) 2(1) by (simp add: confined_def)
qed

lemma confined_mono: "confined m S w w' \<Longrightarrow> S \<subseteq> T \<Longrightarrow> confined m T w w'"
  by (auto simp: confined_def)

lemma confined_emit: "confined m S w (emit m e w)"
proof -
  have "trace (emit m e w) = trace w @ [(m, e)] \<and> fst ` set [(m, e)] \<subseteq> {m}"
    by (simp add: trace_emit)
  then have "\<exists>evs. trace (emit m e w) = trace w @ evs \<and> fst ` set evs \<subseteq> {m}" by blast
  then show ?thesis by (simp add: confined_def files_emit)
qed

lemma confined_files_update:
  assumes "\<forall>x. x \<notin> S \<longrightarrow> g x = files w x"
  shows "confined m S w (emit m e (w\<lparr>files := g\<rparr>))"
proof -
  have "confined m S (w\<lparr>files := g\<rparr>) (emit m e (w\<lparr>files := g\<rparr>))" by (rule confined_emit)
  moreover have "confined m S w (w\<lparr>files := g\<rparr>)"
    using assms by (simp add: confined_def)
  ultimately show ?thesis by (rule confined_trans [rotated])
qed

lemma confined_write_bytes: "p \<in> S \<Longrightarrow> confined m S w (write_bytes env m p d w)"
  unfolding write_bytes_def by (rule confined_files_update) auto

lemma confined_utime:
  assumes "utime m p ts w = Some w'" "p \<in> S"
  shows "confined m S w w'"
proof -
  from assms(1) obtain f where f: "files w p = Some f"
    and w': "w' = emit m (Utime p) (w\<lparr>files := (files w)(p \<mapsto> f\<lparr>file_mtime := ts\<rparr>)\<rparr>)"
    by (auto simp: utime_def split: option.splits)
  show ?thesis unfolding w' using assms(2) by (intro confined_files_update) auto
qed

lemma confined_then_utime:
  assumes "confined m S w w'" "p \<in> S"
  shows "confined m S w (case utime m p ts w' of None \<Rightarrow> w' | Some w'' \<Rightarrow> w'')"
  using assms by (auto split: option.splits intro: confined_trans confined_utime)

lemma confined_add_exif_data:
  assumes "p \<in> S"
  shows "confined m S w (add_exif_data env p m w)"
proof (cases "files w p")
  case None
  then show ?thesis by (simp add: add_exif_data_def confined_refl)
next
  case (Some f)
  let ?e = "set_exif_tags m (case exif_load env (file_content f) of None \<Rightarrow> Map.empty | Some d \<Rightarrow> d)"
  show ?thesis
  proof (cases "exif_insert env ?e (file_content f)")
    case None
    with Some show ?thesis by (simp add: add_exif_data_def Let_def confined_refl)
  next
    case (Some data)
    have "add_exif_data env p m w =
        (case utime m p (timestamp (date m)) (write_bytes env m p data w) of
           None \<Rightarrow> write_bytes env m p data w | Some w'' \<Rightarrow> w'')"
      using \<open>files w p = Some f\<close> Some by (simp add: add_exif_data_def Let_def)
    then show ?thesis
      using confined_then_utime [OF confined_write_bytes [OF assms] assms] by simp
  qed
qed

lemma confined_set_video_metadata:
  assumes "p \<in> S" "with_suffix p ''.temp.mp4'' \<in> S"
  shows "confined m S w (set_video_metadata env p m w)"
proof (cases "files w p")
  case None
  then show ?thesis by (simp add: set_video_metadata_def confined_refl)
next
  case (Some f)
  let ?t = "with_suffix p ''.temp.mp4''"
  let ?w1 = "emit m RunFfmpeg w"
  have c1: "confined m S w ?w1" by (rule confined_emit)
  show ?thesis
  proof (cases "ffmpeg_metadata env (file_content f) (video_metadata_of m)")
    case SpawnFailure
    with Some c1 show ?thesis by (simp add: set_video_metadata_def Let_def)
  next
    case (Exited status out)
    let ?w2 = "case out of None \<Rightarrow> ?w1 | Some b \<Rightarrow> write_bytes env m ?t b ?w1"
    have c2: "confined m S w ?w2"
      using c1 assms(2)
      by (auto split: option.splits intro: confined_trans [OF c1 confined_write_bytes])
    have r: "set_video_metadata env p m w =
        (if status \<noteq> 0 then ?w2
         else case files ?w2 ?t of
                None \<Rightarrow> ?w2
              | Some t \<Rightarrow>
                  (case utime m p (timestamp (date m))
                          (emit m (WriteFile p) (?w2\<lparr>files := ((files ?w2)(?t := None))(p \<mapsto> t)\<rparr>)) of
                     None \<Rightarrow> emit m (WriteFile p) (?w2\<lparr>files := ((files ?w2)(?t := None))(p \<mapsto> t)\<rparr>)
                   | Some w4 \<Rightarrow> w4))"
      using Some Exited by (simp add: set_video_metadata_def Let_def cong: option.case_cong)
    have c3: "confined m S w (emit m (WriteFile p) (?w2\<lparr>files := ((files ?w2)(?t := None))(p \<mapsto> t)\<rparr>))"
      for t
      by (rule confined_trans [OF c2]) (use assms in \<open>intro confined_files_update; auto\<close>)
    show ?thesis
    proof (cases "status \<noteq> 0")
      case True
      then show ?thesis unfolding r using c2 by simp
    next
      case False
      show ?thesis
      proof (cases "files ?w2 ?t")
        case None
        then show ?thesis unfolding r using False c2 by simp
      next
        case (Some t)
        then show ?thesis
          unfolding r using False confined_then_utime [OF c3 assms(1), of t] by simp
      qed
    qed
  qed
qed

subsection \<open>One item\<close>

lemma utime_after_write:
  "utime m p ts (write_bytes env m p d w)
     = Some (emit m (Utime p)
         ((write_bytes env m p d w)
            \<lparr>files := (files w)(p \<mapsto> \<lparr>file_content = d, file_mtime = ts\<rparr>)\<rparr>))"
  by (simp add: utime_def files_write_bytes)

text \<open>The world after the output file has been written and its times set.\<close>

lemma persisted_files:
  "files (persisted env m asset w)
     = (files w)(filename m \<mapsto> \<lparr>file_content = asset, file_mtime = timestamp (date m)\<rparr>)"
  by (simp add: persisted_def files_emit)

lemma persisted_confined: "filename m \<in> S \<Longrightarrow> confined m S w (persisted env m asset w)"
proof -
  assume S: "filename m \<in> S"
  let ?w1 = "emit m (HttpGet (download_link m)) w"
  let ?w2 = "write_bytes env m (filename m) asset ?w1"
  have "confined m S w ?w2"
    by (rule confined_trans [OF confined_emit confined_write_bytes [OF S]])
  moreover have "confined m S ?w2 (persisted env m asset w)"
    unfolding persisted_def
    by (rule confined_files_update) (use S in \<open>auto simp: files_write_bytes files_emit\<close>)
  ultimately show ?thesis by (rule confined_trans)
qed

lemma download_memory_try_fetch_error:
  assumes "fetch env (download_link m) = Inl e"
  shows "download_memory_try env m add_exif w = (Inl e, emit m (HttpGet (download_link m)) w)"
  using assms by (simp add: download_memory_try_def Let_def)

lemma download_memory_try_asset_error:
  assumes "fetch env (download_link m) = Inr (content_type, content)"
    and "(if is_zip content_type content then composite env m content else Inr content) = Inl e"
  shows "download_memory_try env m add_exif w = (Inl e, emit m (HttpGet (download_link m)) w)"
  using assms by (simp add: download_memory_try_def Let_def)

lemma download_memory_try_success:
  assumes "fetch env (download_link m) = Inr (content_type, content)"
    and "(if is_zip content_type content then composite env m content else Inr content) = Inr asset"
  shows "download_memory_try env m add_exif w
     = (Inr (length content), apply_metadata env m add_exif (persisted env m asset w))"
  using assms
  by (simp add: download_memory_try_def Let_def utime_after_write persisted_def apply_metadata_def
      files_emit)

lemma apply_metadata_confined:
  assumes "filename m \<in> S" "with_suffix (filename m) ''.temp.mp4'' \<in> S"
  shows "confined m S w (apply_metadata env m add_exif w)"
  unfolding apply_metadata_def
  using assms by (simp add: confined_refl confined_add_exif_data confined_set_video_metadata)

text \<open>Every item ends in exactly one of two ways.\<close>

lemma download_memory_try_cases:
  obtains (failed) e where
      "download_memory_try env m add_exif w = (Inl e, emit m (HttpGet (download_link m)) w)"
  | (succeeded) content_type content asset where
      "fetch env (download_link m) = Inr (content_type, content)"
      "(if is_zip content_type content then composite env m content else Inr content) = Inr asset"
      "download_memory_try env m add_exif w
         = (Inr (length content), apply_metadata env m add_exif (persisted env m asset w))"
proof (cases "fetch env (download_link m)")
  case (Inl e)
  then show ?thesis using failed download_memory_try_fetch_error by blast
next
  case (Inr r)
  obtain content_type content where r: "r = (content_type, content)" by (cases r)
  show ?thesis
  proof (cases "if is_zip content_type content then composite env m content else Inr content")
    case (Inl e)
    then show ?thesis
      using failed download_memory_try_asset_error Inr r by blast
  next
    case (Inr asset)
    then show ?thesis
      using succeeded download_memory_try_success \<open>fetch env (download_link m) = Inr r\<close> r by blast
  qed
qed

lemma download_memory_try_confined:
  "confined m {filename m, with_suffix (filename m) ''.temp.mp4''} w
     (snd (download_memory_try env m add_exif w))"
proof (cases rule: download_memory_try_cases [of env m add_exif w])
  case (failed e)
  then show ?thesis by (simp add: confined_emit)
next
  case (succeeded content_type content asset)
  show ?thesis
    unfolding succeeded(3) snd_conv
    by (rule confined_trans [OF persisted_confined apply_metadata_confined]) simp_all
qed

lemma download_memory_confined:
  "confined m {filename m, with_suffix (filename m) ''.temp.mp4''} w
     (snd (download_memory env m add_exif w))"
proof -
  let ?S = "{filename m, with_suffix (filename m) ''.temp.mp4''}"
  let ?r = "download_memory_try env m add_exif (emit m Acquire w)"
  have 1: "confined m ?S w (snd ?r)"
    by (rule confined_trans [OF confined_emit download_memory_try_confined])
  have 2: "snd (download_memory env m add_exif w) = emit m Release (snd ?r)"
    by (simp add: download_memory_def split: prod.splits sum.splits)
  show ?thesis unfolding 2 by (rule confined_trans [OF 1 confined_emit])
qed

lemma download_memory_result:
  "fst (download_memory env m add_exif w)
     = (case fst (download_memory_try env m add_exif (emit m Acquire w)) of
          Inl e \<Rightarrow> (False, 0) | Inr n \<Rightarrow> (True, n))"
  by (simp add: download_memory_def split: prod.splits sum.splits)

lemma download_memory_files:
  "files (snd (download_memory env m add_exif w))
     = files (snd (download_memory_try env m add_exif (emit m Acquire w)))"
  by (simp add: download_memory_def files_emit split: prod.splits sum.splits)

lemma download_memory_failure:
  assumes "download_memory_try env m add_exif (emit m Acquire w)
             = (Inl e, emit m (HttpGet (download_link m)) (emit m Acquire w))"
  shows "fst (download_memory env m add_exif w) = (False, 0)"
    and "files (snd (download_memory env m add_exif w)) = files w"
  using assms by (simp_all add: download_memory_result download_memory_files files_emit)

subsection \<open>The run\<close>

lemma process_and_update_world:
  "snd (process_and_update env add_exif m (st, w)) = snd (download_memory env m add_exif w)"
  by (simp add: process_and_update_def Let_def split: prod.splits)

lemma process_and_update_counts:
  "skipped (fst (process_and_update env add_exif m (st, w))) = skipped st
   \<and> (if fst (fst (download_memory env m add_exif w))
       then downloaded (fst (process_and_update env add_exif m (st, w))) = downloaded st + 1
            \<and> failed (fst (process_and_update env add_exif m (st, w))) = failed st
       else downloaded (fst (process_and_update env add_exif m (st, w))) = downloaded st
            \<and> failed (fst (process_and_update env add_exif m (st, w))) = failed st + 1)"
  by (simp add: process_and_update_def Let_def split: prod.splits)

lemma process_and_update_sum:
  "downloaded (fst (process_and_update env add_exif m (st, w)))
     + failed (fst (process_and_update env add_exif m (st, w)))
     = downloaded st + failed st + 1"
  using process_and_update_counts [of env add_exif m st w] by (simp split: if_splits)

lemma gather_counts:
  "skipped (fst (gather env add_exif ms (st, w))) = skipped st
   \<and> downloaded (fst (gather env add_exif ms (st, w))) + failed (fst (gather env add_exif ms (st, w)))
       = downloaded st + failed st + int (length ms)"
proof (induction ms arbitrary: st w)
  case Nil
  then show ?case by simp
next
  case (Cons m ms)
  obtain st1 w1 where p: "process_and_update env add_exif m (st, w) = (st1, w1)"
    by (cases "process_and_update env add_exif m (st, w)")
  have s1: "skipped st1 = skipped st" "downloaded st1 + failed st1 = downloaded st + failed st + 1"
    using process_and_update_counts [of env add_exif m st w]
      process_and_update_sum [of env add_exif m st w] p by simp_all
  show ?case using Cons.IH [of st1 w1] s1 by (simp add: p)
qed

lemma gather_files:
  assumes "\<forall>m \<in> set ms. x \<noteq> filename m \<and> x \<noteq> with_suffix (filename m) ''.temp.mp4''"
  shows "files (snd (gather env add_exif ms (st, w))) x = files w x"
  using assms
proof (induction ms arbitrary: st w)
  case Nil
  then show ?case by simp
next
  case (Cons m ms)
  obtain st1 w1 where p: "process_and_update env add_exif m (st, w) = (st1, w1)"
    by (cases "process_and_update env add_exif m (st, w)")
  have w1: "w1 = snd (download_memory env m add_exif w)"
    using process_and_update_world [of env add_exif m st w] p by simp
  have "files w1 x = files w x"
    using download_memory_confined [of m w env add_exif] Cons.prems
    by (simp add: confined_def w1)
  moreover have "files (snd (gather env add_exif ms (st1, w1))) x = files w1 x"
    using Cons.IH [of st1 w1] Cons.prems by simp
  ultimately show ?case by (simp add: p)
qed

lemma gather_trace:
  assumes "(m0, e) \<in> set (trace (snd (gather env add_exif ms (st, w))))"
  shows "(m0, e) \<in> set (trace w) \<or> m0 \<in> set ms"
  using assms
proof (induction ms arbitrary: st w)
  case Nil
  then show ?case by simp
next
  case (Cons m ms)
  obtain st1 w1 where p: "process_and_update env add_exif m (st, w) = (st1, w1)"
    by (cases "process_and_update env add_exif m (st, w)")
  have w1: "w1 = snd (download_memory env m add_exif w)"
    using process_and_update_world [of env add_exif m st w] p by simp
  obtain evs where evs: "trace w1 = trace w @ evs" "fst ` set evs \<subseteq> {m}"
    using download_memory_confined [of m w env add_exif] unfolding confined_def w1 by blast
  from Cons.prems have "(m0, e) \<in> set (trace (snd (gather env add_exif ms (st1, w1))))"
    by (simp add: p)
  then have "(m0, e) \<in> set (trace w1) \<or> m0 \<in> set ms" by (rule Cons.IH)
  then show ?case using evs by auto
qed

lemma schedule_eq:
  "schedule skip_existing w ms st acc
     = (st\<lparr>skipped := skipped st
              + int (length (filter (\<lambda>m. skip_existing \<and> files w (filename m) \<noteq> None) ms))\<rparr>,
        acc @ filter (\<lambda>m. \<not> (skip_existing \<and> files w (filename m) \<noteq> None)) ms)"
proof (induction ms arbitrary: st acc)
  case Nil
  then show ?case by simp
next
  case (Cons m ms)
  let ?P = "\<lambda>m. skip_existing \<and> files w (filename m) \<noteq> None"
  show ?case
  proof (cases "?P m")
    case True
    have "schedule skip_existing w (m # ms) st acc
            = schedule skip_existing w ms (st\<lparr>skipped := skipped st + 1\<rparr>) acc"
      using True by simp
    also have "\<dots> = (st\<lparr>skipped := skipped st + 1 + int (length (filter ?P ms))\<rparr>,
                       acc @ filter (\<lambda>m. \<not> ?P m) ms)"
      unfolding Cons.IH by simp
    also have "\<dots> = (st\<lparr>skipped := skipped st + int (length (filter ?P (m # ms)))\<rparr>,
                       acc @ filter (\<lambda>m. \<not> ?P m) (m # ms))"
      using True by (simp only: filter.simps if_True if_False simp_thms list.size of_nat_Suc length_Cons)
        (simp add: algebra_simps)
    finally show ?thesis .
  next
    case False
    have "schedule skip_existing w (m # ms) st acc
            = schedule skip_existing w ms st (acc @ [m])"
      using False by auto
    also have "\<dots> = (st\<lparr>skipped := skipped st + int (length (filter ?P ms))\<rparr>,
                       (acc @ [m]) @ filter (\<lambda>m. \<not> ?P m) ms)"
      unfolding Cons.IH by simp
    also have "\<dots> = (st\<lparr>skipped := skipped st + int (length (filter ?P (m # ms)))\<rparr>,
                       acc @ filter (\<lambda>m. \<not> ?P m) (m # ms))"
      using False by (simp only: filter.simps if_True if_False simp_thms append_assoc append_Cons append_Nil)
    finally show ?thesis .
  qed
qed

lemma download_all_returns:
  assumes "0 < max_concurrent"
  shows "\<exists>st w'. download_all env memories max_concurrent add_exif skip_existing w = Returned (st, w')"
proof -
  obtain st ds where s: "schedule skip_existing w memories
      \<lparr>downloaded = 0, skipped = 0, failed = 0, mb = 0\<rparr> [] = (st, ds)"
    by (cases "schedule skip_existing w memories \<lparr>downloaded = 0, skipped = 0, failed = 0, mb = 0\<rparr> []")
  obtain st' w' where g: "gather env add_exif ds (st, w) = (st', w')"
    by (cases "gather env add_exif ds (st, w)")
  show ?thesis using assms s g by (simp add: download_all_def)
qed

lemma download_all_Returned:
  assumes "download_all env memories max_concurrent add_exif skip_existing w = Returned (st, w')"
  shows "(st, w') = gather env add_exif
            (sort_key (arrival env)
               (filter (\<lambda>m. \<not> (skip_existing \<and> files w (filename m) \<noteq> None)) memories))
            (\<lparr>downloaded = 0,
              skipped = int (length (filter (\<lambda>m. skip_existing \<and> files w (filename m) \<noteq> None) memories)),
              failed = 0, mb = 0\<rparr>, w)"
  using assms
  by (auto simp: download_all_def schedule_eq split: if_splits)

lemma length_filter_partition:
  "int (length (filter P xs)) + int (length (filter (\<lambda>x. \<not> P x) xs)) = int (length xs)"
  using sum_length_filter_compl [of P xs] by simp

text \<open>
  C1. A run over \<open>N\<close> manifest records that completes ends with
  \<open>downloaded + skipped + failed = N\<close>: each record whose output file already exists under
  skip-existing adds one to \<open>skipped\<close>, and each other record adds one to exactly one of
  \<open>downloaded\<close> and \<open>failed\<close>. A run with a positive concurrency bound completes.
\<close>

theorem run_statistics:
  "(0 < max_concurrent \<longrightarrow>
      (\<exists>st w'. download_all env memories max_concurrent add_exif skip_existing w = Returned (st, w')))
   \<and> (\<forall>st w'. download_all env memories max_concurrent add_exif skip_existing w = Returned (st, w')
        \<longrightarrow> downloaded st + skipped st + failed st = int (length memories)
          \<and> skipped st
              = int (length (filter (\<lambda>m. skip_existing \<and> files w (filename m) \<noteq> None) memories))
          \<and> downloaded st + failed st
              = int (length (filter (\<lambda>m. \<not> (skip_existing \<and> files w (filename m) \<noteq> None)) memories)))
   \<and> skipped (fst (process_and_update env add_exif m (st_before, w_before))) = skipped st_before
   \<and> ((downloaded (fst (process_and_update env add_exif m (st_before, w_before))) = downloaded st_before + 1
         \<and> failed (fst (process_and_update env add_exif m (st_before, w_before))) = failed st_before)
       \<or> (downloaded (fst (process_and_update env add_exif m (st_before, w_before))) = downloaded st_before
         \<and> failed (fst (process_and_update env add_exif m (st_before, w_before))) = failed st_before + 1))"
proof (intro conjI allI impI)
  assume "0 < max_concurrent"
  then show "\<exists>st w'. download_all env memories max_concurrent add_exif skip_existing w = Returned (st, w')"
    by (rule download_all_returns)
next
  fix st w'
  assume r: "download_all env memories max_concurrent add_exif skip_existing w = Returned (st, w')"
  let ?P = "\<lambda>m. skip_existing \<and> files w (filename m) \<noteq> None"
  let ?st0 = "\<lparr>downloaded = 0, skipped = int (length (filter ?P memories)), failed = 0, mb = 0\<rparr>"
  let ?ds = "filter (\<lambda>m. \<not> ?P m) memories"
  let ?os = "sort_key (arrival env) ?ds"
  have g: "st = fst (gather env add_exif ?os (?st0, w))"
    using download_all_Returned [OF r] by (metis fst_conv)
  have len: "length ?os = length ?ds" by (rule length_sort)
  show sk: "skipped st = int (length (filter ?P memories))"
    unfolding g using gather_counts [of env add_exif ?os ?st0 w] by simp
  show df: "downloaded st + failed st = int (length ?ds)"
    unfolding g using gather_counts [of env add_exif ?os ?st0 w] len by simp
  show "downloaded st + skipped st + failed st = int (length memories)"
    using sk df length_filter_partition [of ?P memories] by simp
next
  show "skipped (fst (process_and_update env add_exif m (st_before, w_before))) = skipped st_before"
    using process_and_update_counts [of env add_exif m st_before w_before] by simp
next
  show "(downloaded (fst (process_and_update env add_exif m (st_before, w_before))) = downloaded st_before + 1
         \<and> failed (fst (process_and_update env add_exif m (st_before, w_before))) = failed st_before)
       \<or> (downloaded (fst (process_and_update env add_exif m (st_before, w_before))) = downloaded st_before
         \<and> failed (fst (process_and_update env add_exif m (st_before, w_before))) = failed st_before + 1)"
    using process_and_update_counts [of env add_exif m st_before w_before] by (simp split: if_splits)
qed

lemma sample_manifest_existing:
  "filter (\<lambda>m. True \<and> files sample_world (filename m) \<noteq> None) sample_manifest
     = [sample_memory ''Image'' ''https://cdn.test/plain'']"
  by code_simp

lemma sample_manifest_missing:
  "length (filter (\<lambda>m. \<not> (True \<and> files sample_world (filename m) \<noteq> None)) sample_manifest) = 2"
  by code_simp

theorem run_statistics_witness:
  "\<exists>st w'. download_all sample_env sample_manifest 40 True True sample_world = Returned (st, w')
     \<and> downloaded st + skipped st + failed st = 3
     \<and> skipped st = 1
     \<and> downloaded st + failed st = 2"
proof -
  note r = run_statistics [where max_concurrent = 40 and env = sample_env
      and memories = sample_manifest and add_exif = True and skip_existing = True
      and w = sample_world and m = "sample_memory ''Image'' ''https://cdn.test/plain''"
      and st_before = "\<lparr>downloaded = 0, skipped = 0, failed = 0, mb = 0\<rparr>"
      and w_before = sample_world]
  from r have "\<exists>st w'. download_all sample_env sample_manifest 40 True True sample_world
      = Returned (st, w')"
    by simp
  then obtain st w' where
    ret: "download_all sample_env sample_manifest 40 True True sample_world = Returned (st, w')"
    by blast
  have len: "length sample_manifest = 3" by (simp add: sample_manifest_def)
  from r ret have "downloaded st + skipped st + failed st = 3 \<and> skipped st = 1
      \<and> downloaded st + failed st = 2"
    unfolding sample_manifest_existing sample_manifest_missing len by simp
  with ret show ?thesis by blast
qed

subsection \<open>Skipping existing files\<close>

text \<open>
  C8. When skip-existing is enabled and a record's output file already exists, a completed
  run has counted the record as skipped and has done nothing else for it: the trace holds
  no event of the record (no gate slot, no HTTP request, no file operation), and the file
  under its name is as it was.
\<close>

theorem skip_existing_item:
  assumes "skip_existing" and "m \<in> set memories" and "files w (filename m) \<noteq> None"
  shows "(0 < max_concurrent \<longrightarrow>
          (\<exists>st w'. download_all env memories max_concurrent add_exif skip_existing w
                      = Returned (st, w')))
       \<and> (\<forall>st w'. download_all env memories max_concurrent add_exif skip_existing w = Returned (st, w')
            \<longrightarrow> files w' (filename m) = files w (filename m)
              \<and> (\<forall>e. (m, e) \<in> set (trace w') \<longrightarrow> (m, e) \<in> set (trace w))
              \<and> skipped st = int (length (filter (\<lambda>x. files w (filename x) \<noteq> None) memories))
              \<and> 1 \<le> skipped st)"
proof (intro conjI)
  show "0 < max_concurrent \<longrightarrow>
          (\<exists>st w'. download_all env memories max_concurrent add_exif skip_existing w
                      = Returned (st, w'))"
    using download_all_returns by blast
  show "\<forall>st w'. download_all env memories max_concurrent add_exif skip_existing w = Returned (st, w')
            \<longrightarrow> files w' (filename m) = files w (filename m)
              \<and> (\<forall>e. (m, e) \<in> set (trace w') \<longrightarrow> (m, e) \<in> set (trace w))
              \<and> skipped st = int (length (filter (\<lambda>x. files w (filename x) \<noteq> None) memories))
              \<and> 1 \<le> skipped st"
  proof (intro allI impI)
    fix st w'
    assume r: "download_all env memories max_concurrent add_exif skip_existing w = Returned (st, w')"
    let ?P = "\<lambda>x. skip_existing \<and> files w (filename x) \<noteq> None"
    let ?st0 = "\<lparr>downloaded = 0, skipped = int (length (filter ?P memories)), failed = 0, mb = 0\<rparr>"
    let ?ds = "sort_key (arrival env) (filter (\<lambda>x. \<not> ?P x) memories)"
    have g: "(st, w') = gather env add_exif ?ds (?st0, w)"
      by (rule download_all_Returned [OF r])
    then have w': "w' = snd (gather env add_exif ?ds (?st0, w))"
      and st: "st = fst (gather env add_exif ?ds (?st0, w))"
      by (metis snd_conv, metis fst_conv)
    have ds: "set ?ds = set (filter (\<lambda>x. \<not> ?P x) memories)" by (rule set_sort)
    have other: "\<forall>x \<in> set ?ds. filename m \<noteq> filename x
        \<and> filename m \<noteq> with_suffix (filename x) ''.temp.mp4''"
    proof (intro ballI conjI)
      fix x assume "x \<in> set ?ds"
      then have "x \<in> set (filter (\<lambda>x. \<not> ?P x) memories)" unfolding ds .
      then have "files w (filename x) = None" using assms(1) by simp
      then show "filename m \<noteq> filename x" using assms(3) by auto
      show "filename m \<noteq> with_suffix (filename x) ''.temp.mp4''"
        using temp_path_not_filename [of x m] by simp
    qed
    have unchanged: "files w' (filename m) = files w (filename m)"
      unfolding w' by (rule gather_files [OF other])
    have notin: "m \<notin> set ?ds" unfolding ds using assms by simp
    have quiet: "\<forall>e. (m, e) \<in> set (trace w') \<longrightarrow> (m, e) \<in> set (trace w)"
      using gather_trace [of m _ env add_exif ?ds ?st0 w] notin unfolding w' by blast
    have sk: "skipped st = int (length (filter (\<lambda>x. files w (filename x) \<noteq> None) memories))"
      unfolding st using gather_counts [of env add_exif ?ds ?st0 w] assms(1) by simp
    have "filter (\<lambda>x. files w (filename x) \<noteq> None) memories \<noteq> []"
      using assms(2,3) by (auto simp: filter_empty_conv)
    then have "0 < length (filter (\<lambda>x. files w (filename x) \<noteq> None) memories)"
      using length_greater_0_conv by blast
    then have "1 \<le> skipped st" unfolding sk by linarith
    with unchanged quiet sk
    show "files w' (filename m) = files w (filename m)
              \<and> (\<forall>e. (m, e) \<in> set (trace w') \<longrightarrow> (m, e) \<in> set (trace w))
              \<and> skipped st = int (length (filter (\<lambda>x. files w (filename x) \<noteq> None) memories))
              \<and> 1 \<le> skipped st"
      by blast
  qed
qed

theorem skip_existing_item_witness:
  "sample_memory ''Image'' ''https://cdn.test/plain'' \<in> set sample_manifest
   \<and> files sample_world (filename (sample_memory ''Image'' ''https://cdn.test/plain'')) \<noteq> None
   \<and> (\<exists>st w'. download_all sample_env sample_manifest 40 True True sample_world = Returned (st, w')
        \<and> files w' ''2020-01-01_04-00-00.jpg'' = files sample_world ''2020-01-01_04-00-00.jpg''
        \<and> (\<forall>e. (sample_memory ''Image'' ''https://cdn.test/plain'', e) \<notin> set (trace w'))
        \<and> skipped st = 1)"
proof -
  let ?m = "sample_memory ''Image'' ''https://cdn.test/plain''"
  have a: "?m \<in> set sample_manifest" by (simp add: sample_manifest_def)
  have n: "filename ?m = ''2020-01-01_04-00-00.jpg''" by code_simp
  have b: "files sample_world (filename ?m) \<noteq> None"
    unfolding n by (simp add: sample_world_def)
  have c: "filter (\<lambda>x. files sample_world (filename x) \<noteq> None) sample_manifest = [?m]"
    using sample_manifest_existing by simp
  have t: "trace sample_world = []" by (simp add: sample_world_def)
  note r = skip_existing_item [of True ?m sample_manifest sample_world 40 sample_env True, OF _ a b]
  from r obtain st w' where
    ret: "download_all sample_env sample_manifest 40 True True sample_world = Returned (st, w')"
    by auto
  from r ret have "files w' ''2020-01-01_04-00-00.jpg'' = files sample_world ''2020-01-01_04-00-00.jpg''
        \<and> (\<forall>e. (?m, e) \<notin> set (trace w')) \<and> skipped st = 1"
    unfolding c n t by simp
  with ret a b show ?thesis by blast
qed

subsection \<open>The capture time of a record\<close>

lemma model_post_init_keeps:
  assumes "model_post_init r = Inr r'"
  shows "date r' = date r" and "media_type r' = media_type r"
    and "download_link r' = download_link r" and "location r' = location r"
  using assms
  by (auto simp: model_post_init_def split: if_splits option.splits prod.splits)

lemma model_post_init_no_location: "location r = [] \<Longrightarrow> model_post_init r = Inr r"
  by (simp add: model_post_init_def)

lemma make_memory_parsed:
  assumes "parse_date zone (entry_date e) = Inr dt"
  shows "make_memory zone e = Inr r \<Longrightarrow> date r = dt"
    and "entry_location e = None \<Longrightarrow> \<exists>r. make_memory zone e = Inr r"
proof -
  let ?r0 = "\<lparr>date = dt, media_type = entry_media_type e, download_link = entry_download_link e,
             location = (case entry_location e of None \<Rightarrow> [] | Some l \<Rightarrow> l),
             latitude = entry_latitude e, longitude = entry_longitude e\<rparr>"
  have m: "make_memory zone e = model_post_init ?r0"
    using assms by (simp add: make_memory_def)
  show "make_memory zone e = Inr r \<Longrightarrow> date r = dt"
    unfolding m using model_post_init_keeps(1) [of ?r0 r] by simp
  show "entry_location e = None \<Longrightarrow> \<exists>r. make_memory zone e = Inr r"
    unfolding m using model_post_init_no_location [of ?r0] by simp
qed

lemma run_trace_records:
  assumes "download_all env memories max_concurrent add_exif skip_existing w = Returned (st, w')"
    and "(r, ev) \<in> set (trace w')"
  shows "(r, ev) \<in> set (trace w) \<or> r \<in> set memories"
proof (cases "max_concurrent < 0 \<or> snd (schedule skip_existing w memories
      \<lparr>downloaded = 0, skipped = 0, failed = 0, mb = 0\<rparr> []) = [] \<or> max_concurrent = 0")
  case True
  then show ?thesis using assms by (auto simp: download_all_def split: if_splits prod.splits)
next
  case False
  let ?P = "\<lambda>m. skip_existing \<and> files w (filename m) \<noteq> None"
  let ?st0 = "\<lparr>downloaded = 0, skipped = int (length (filter ?P memories)), failed = 0, mb = 0\<rparr>"
  let ?ds = "sort_key (arrival env) (filter (\<lambda>x. \<not> ?P x) memories)"
  have "(st, w') = gather env add_exif ?ds (?st0, w)"
    by (rule download_all_Returned [OF assms(1)])
  then have w': "w' = snd (gather env add_exif ?ds (?st0, w))" by (metis snd_conv)
  have "(r, ev) \<in> set (trace w) \<or> r \<in> set ?ds"
    using gather_trace [of r ev env add_exif ?ds ?st0 w] assms(2) unfolding w' by blast
  then show ?thesis by auto
qed

text \<open>
  C7 (as amended). A capture-time string that is a valid civil time written
  \<^verbatim>\<open>YYYY-MM-DD HH:MM:SS\<close> and followed by the literal \<^verbatim>\<open> UTC\<close> is parsed successfully:
  the date denotes the instant at which UTC clocks showed that civil time, carries the
  target zone's offset at that instant, and its civil fields are those of the target zone,
  provided the year in the target zone stays within 1..9999. The same text without the
  \<^verbatim>\<open> UTC\<close> suffix is rejected. Constructing a record from an entry with such a date
  stores that date (and succeeds when the entry has no location), and the date stays as
  stored: the back-fill of the coordinates, the only code that assigns to a record, returns
  a record with the same date, and every event of a completed run belongs to a record of
  the manifest.
\<close>

theorem capture_time_parsed:
  assumes "valid_civil c"
    and "1 \<le> year (civil_of_seconds (seconds_of_civil c + zone (seconds_of_civil c)))"
    and "year (civil_of_seconds (seconds_of_civil c + zone (seconds_of_civil c))) \<le> 9999"
  shows "(\<exists>dt. parse_date zone (capture_time_text c @ '' UTC'') = Inr dt
            \<and> timestamp dt = seconds_of_civil c
            \<and> utcoffset dt = zone (seconds_of_civil c)
            \<and> civil_fields dt
                = civil_of_seconds (seconds_of_civil c + zone (seconds_of_civil c)))
         \<and> parse_date zone (capture_time_text c)
             = Inl (ValueError ''time data does not match format'')
         \<and> (entry_date e = capture_time_text c @ '' UTC'' \<longrightarrow>
               (entry_location e = None \<longrightarrow> (\<exists>r. make_memory zone e = Inr r))
             \<and> (\<forall>r. make_memory zone e = Inr r \<longrightarrow>
                    date r = \<lparr>instant = seconds_of_civil c, utcoffset = zone (seconds_of_civil c)\<rparr>))
         \<and> (\<forall>r r'. model_post_init r = Inr r' \<longrightarrow> date r' = date r)
         \<and> (\<forall>st w' r ev.
               download_all env memories max_concurrent add_exif skip_existing w = Returned (st, w')
               \<longrightarrow> (r, ev) \<in> set (trace w')
               \<longrightarrow> (r, ev) \<in> set (trace w) \<or> r \<in> set memories)"
proof (intro conjI)
  let ?dt = "\<lparr>instant = seconds_of_civil c, utcoffset = zone (seconds_of_civil c)\<rparr>"
  have p: "parse_date zone (capture_time_text c @ '' UTC'') = Inr ?dt"
    using assms(2,3)
    by (simp add: parse_date_def strptime_capture_time [OF assms(1)] astimezone_def
        replace_tzinfo_utc_def civil_fields_def Let_def)
  then show "\<exists>dt. parse_date zone (capture_time_text c @ '' UTC'') = Inr dt
            \<and> timestamp dt = seconds_of_civil c
            \<and> utcoffset dt = zone (seconds_of_civil c)
            \<and> civil_fields dt
                = civil_of_seconds (seconds_of_civil c + zone (seconds_of_civil c))"
    by (simp add: timestamp_def civil_fields_def)
  show "parse_date zone (capture_time_text c)
          = Inl (ValueError ''time data does not match format'')"
    by (simp add: parse_date_def strptime_without_zone [OF assms(1)])
  show "entry_date e = capture_time_text c @ '' UTC'' \<longrightarrow>
               (entry_location e = None \<longrightarrow> (\<exists>r. make_memory zone e = Inr r))
             \<and> (\<forall>r. make_memory zone e = Inr r \<longrightarrow> date r = ?dt)"
    using make_memory_parsed [of zone e ?dt] p by auto
  show "\<forall>r r'. model_post_init r = Inr r' \<longrightarrow> date r' = date r"
    using model_post_init_keeps(1) by blast
  show "\<forall>st w' r ev.
               download_all env memories max_concurrent add_exif skip_existing w = Returned (st, w')
               \<longrightarrow> (r, ev) \<in> set (trace w')
               \<longrightarrow> (r, ev) \<in> set (trace w) \<or> r \<in> set memories"
    using run_trace_records by blast
qed

theorem capture_time_parsed_witness:
  "valid_civil noon_2020
   \<and> capture_time_text noon_2020 @ '' UTC'' = ''2020-01-01 12:00:00 UTC''
   \<and> (\<exists>dt. parse_date pacific_standard ''2020-01-01 12:00:00 UTC'' = Inr dt
          \<and> timestamp dt = 1577880000
          \<and> utcoffset dt = - 28800
          \<and> civil_fields dt
              = \<lparr>year = 2020, month = 1, day = 1, hour = 4, minute = 0, second = 0\<rparr>)
   \<and> entry_date sample_entry = ''2020-01-01 12:00:00 UTC''
   \<and> entry_location sample_entry = None
   \<and> (\<exists>r. make_memory pacific_standard sample_entry = Inr r
          \<and> date r = \<lparr>instant = 1577880000, utcoffset = - 28800\<rparr>)
   \<and> model_post_init (san_francisco\<lparr>latitude := None, longitude := None\<rparr>) = Inr san_francisco
   \<and> date san_francisco = date (san_francisco\<lparr>latitude := None, longitude := None\<rparr>)
   \<and> (\<exists>st w'. download_all sample_env sample_manifest 40 True True sample_world = Returned (st, w')
          \<and> (\<forall>r ev. (r, ev) \<in> set (trace w') \<longrightarrow> r \<in> set sample_manifest))"
proof -
  have v: "valid_civil noon_2020" by code_simp
  have s: "seconds_of_civil noon_2020 = 1577880000" by code_simp
  have z: "pacific_standard 1577880000 = - 28800" by (simp add: pacific_standard_def)
  have l: "civil_of_seconds (1577880000 + - 28800)
             = \<lparr>year = 2020, month = 1, day = 1, hour = 4, minute = 0, second = 0\<rparr>"
    by code_simp
  have t: "capture_time_text noon_2020 @ '' UTC'' = ''2020-01-01 12:00:00 UTC''" by code_simp
  have y1: "1 \<le> year (civil_of_seconds
      (seconds_of_civil noon_2020 + pacific_standard (seconds_of_civil noon_2020)))"
    unfolding s z l by simp
  have y2: "year (civil_of_seconds
      (seconds_of_civil noon_2020 + pacific_standard (seconds_of_civil noon_2020))) \<le> 9999"
    unfolding s z l by simp
  have ed: "entry_date sample_entry = ''2020-01-01 12:00:00 UTC''"
    and el: "entry_location sample_entry = None"
    by (simp_all add: sample_entry_def)
  have pi: "model_post_init (san_francisco\<lparr>latitude := None, longitude := None\<rparr>)
              = Inr san_francisco"
    by code_simp
  have tr: "trace sample_world = []" by (simp add: sample_world_def)
  obtain st w' where
    ret: "download_all sample_env sample_manifest 40 True True sample_world = Returned (st, w')"
    using download_all_returns [of 40 sample_env sample_manifest True True sample_world] by auto
  note r = capture_time_parsed [where c = noon_2020 and zone = pacific_standard
      and e = sample_entry and env = sample_env and memories = sample_manifest
      and max_concurrent = 40 and add_exif = True and skip_existing = True
      and w = sample_world, OF v y1 y2, unfolded s z l t]
  from r have 1: "\<exists>dt. parse_date pacific_standard ''2020-01-01 12:00:00 UTC'' = Inr dt
          \<and> timestamp dt = 1577880000
          \<and> utcoffset dt = - 28800
          \<and> civil_fields dt
              = \<lparr>year = 2020, month = 1, day = 1, hour = 4, minute = 0, second = 0\<rparr>"
    by blast
  from r ed el have 2: "\<exists>r. make_memory pacific_standard sample_entry = Inr r
          \<and> date r = \<lparr>instant = 1577880000, utcoffset = - 28800\<rparr>"
    by blast
  from r pi have 3: "date san_francisco = date (san_francisco\<lparr>latitude := None, longitude := None\<rparr>)"
    by blast
  from r ret tr have 4: "\<forall>r ev. (r, ev) \<in> set (trace w') \<longrightarrow> r \<in> set sample_manifest"
    by (metis empty_iff list.set(1))
  from v t 1 ed el 2 pi 3 ret 4 show ?thesis by blast
qed

text \<open>
  The capture time in the form \<^verbatim>\<open>YYYY-MM-DD HH:MM:SS\<close> alone does not parse: the format
  string of \<^verbatim>\<open>parse_date\<close> ends in the literal \<^verbatim>\<open> UTC\<close>. With the suffix, the first
  instant of year 1 parses but lies in year 0 of a zone behind UTC, which
  \<^verbatim>\<open>astimezone\<close> refuses; and a text of the same shape that is not a date
  (30 February) is rejected.
\<close>

theorem capture_time_without_zone_counterexample:
  "valid_civil noon_2020
   \<and> capture_time_text noon_2020 = ''2020-01-01 12:00:00''
   \<and> strptime ''2020-01-01 12:00:00'' = Inl (ValueError ''time data does not match format'')
   \<and> parse_date pacific_standard ''2020-01-01 12:00:00''
       = Inl (ValueError ''time data does not match format'')
   \<and> valid_civil first_of_year_1
   \<and> capture_time_text first_of_year_1 @ '' UTC'' = ''0001-01-01 00:00:00 UTC''
   \<and> parse_date pacific_standard ''0001-01-01 00:00:00 UTC'' = Inl OverflowError
   \<and> parse_date pacific_standard ''2020-02-30 12:00:00 UTC''
       = Inl (ValueError ''day is out of range for month'')"
proof -
  have v: "valid_civil noon_2020" by code_simp
  have t: "capture_time_text noon_2020 = ''2020-01-01 12:00:00''" by code_simp
  have s: "strptime ''2020-01-01 12:00:00'' = Inl (ValueError ''time data does not match format'')"
    by code_simp
  have v1: "valid_civil first_of_year_1" by code_simp
  have t1: "capture_time_text first_of_year_1 @ '' UTC'' = ''0001-01-01 00:00:00 UTC''"
    by code_simp
  have o: "parse_date pacific_standard ''0001-01-01 00:00:00 UTC'' = Inl OverflowError"
    by code_simp
  have d: "parse_date pacific_standard ''2020-02-30 12:00:00 UTC''
       = Inl (ValueError ''day is out of range for month'')"
    by code_simp
  show ?thesis using v t s v1 t1 o d by (simp add: parse_date_def)
qed

subsection \<open>Failed and successful items\<close>

lemma download_memory_fails:
  assumes "fetch env (download_link m) = Inr (content_type, content)"
    and "(if is_zip content_type content then composite env m content else Inr content) = Inl e"
  shows "fst (download_memory_try env m add_exif w) = Inl e"
    and "fst (download_memory env m add_exif w) = (False, 0)"
    and "files (snd (download_memory env m add_exif w)) = files w"
    and "trace (snd (download_memory env m add_exif w))
           = trace w @ [(m, Acquire), (m, HttpGet (download_link m)), (m, Release)]"
  using download_memory_try_asset_error [OF assms]
  by (simp_all add: download_memory_def files_emit trace_emit)

lemma download_memory_succeeds:
  assumes "fetch env (download_link m) = Inr (content_type, content)"
    and "(if is_zip content_type content then composite env m content else Inr content) = Inr asset"
  shows "fst (download_memory_try env m add_exif w) = Inr (length content)"
    and "snd (download_memory_try env m add_exif w)
           = apply_metadata env m add_exif (persisted env m asset w)"
    and "fst (download_memory env m add_exif w) = (True, length content)"
    and "files (snd (download_memory env m add_exif w))
           = files (apply_metadata env m add_exif (persisted env m asset (emit m Acquire w)))"
  using download_memory_try_success [OF assms]
  by (simp_all add: download_memory_def files_emit)

lemma item_counted_failed:
  assumes "fst (download_memory env m add_exif w) = (False, n)"
  shows "failed (fst (process_and_update env add_exif m (st, w))) = failed st + 1"
    and "downloaded (fst (process_and_update env add_exif m (st, w))) = downloaded st"
  using process_and_update_counts [of env add_exif m st w] assms by simp_all

lemma item_counted_downloaded:
  assumes "fst (download_memory env m add_exif w) = (True, n)"
  shows "downloaded (fst (process_and_update env add_exif m (st, w))) = downloaded st + 1"
    and "failed (fst (process_and_update env add_exif m (st, w))) = failed st"
  using process_and_update_counts [of env add_exif m st w] assms by simp_all

subsection \<open>Archives without a base entry\<close>

lemma first_where_None: "(first_where P xs = None) = (\<forall>x \<in> set xs. \<not> P x)"
  by (induction xs) simp_all

lemma extract_archive_no_main:
  assumes "\<forall>f \<in> set (zip_namelist zf). \<not> contains f ''-main''"
  shows "extract_archive zf = Inl (ValueError ''No main media file found in ZIP.'')"
proof -
  have "first_where (\<lambda>f. contains f ''-main'') (zip_namelist zf) = None"
    using assms by (simp add: first_where_None)
  then show ?thesis by (simp add: extract_archive_def Let_def)
qed

text \<open>
  C3. When the payload is classified as a composite archive and the archive has no entry
  whose name contains \<^verbatim>\<open>-main\<close>, the item raises the format error
  \<^verbatim>\<open>ValueError("No main media file found in ZIP.")\<close>, returns failure and is counted
  failed; the output directory is left exactly as it was, and the item's trace holds the
  gate and the HTTP request only.
\<close>

theorem archive_without_base_entry:
  assumes "fetch env (download_link m) = Inr (content_type, content)"
    and "is_zip content_type content"
    and "zip_open env content = Some zf"
    and "\<forall>f \<in> set (zip_namelist zf). \<not> contains f ''-main''"
  shows "fst (download_memory_try env m add_exif w)
           = Inl (ValueError ''No main media file found in ZIP.'')
       \<and> fst (download_memory env m add_exif w) = (False, 0)
       \<and> files (snd (download_memory env m add_exif w)) = files w
       \<and> trace (snd (download_memory env m add_exif w))
           = trace w @ [(m, Acquire), (m, HttpGet (download_link m)), (m, Release)]
       \<and> failed (fst (process_and_update env add_exif m (st, w))) = failed st + 1
       \<and> downloaded (fst (process_and_update env add_exif m (st, w))) = downloaded st"
proof -
  have c: "(if is_zip content_type content then composite env m content else Inr content)
             = Inl (ValueError ''No main media file found in ZIP.'')"
    using assms(2,3) extract_archive_no_main [OF assms(4)] by (simp add: composite_def)
  note f = download_memory_fails [OF assms(1) c, of add_exif w]
  show ?thesis
    using f item_counted_failed [OF f(2), of st] by simp
qed

theorem archive_without_base_entry_witness:
  "fetch sample_env ''https://cdn.test/no-main'' = Inr (None, sample_zip_no_main)
   \<and> is_zip None sample_zip_no_main
   \<and> zip_open sample_env sample_zip_no_main = Some (sample_zip [(''2020-overlay.png'', [0x09])])
   \<and> fst (download_memory sample_env (sample_memory ''Image'' ''https://cdn.test/no-main'')
             True sample_world) = (False, 0)
   \<and> files (snd (download_memory sample_env (sample_memory ''Image'' ''https://cdn.test/no-main'')
             True sample_world)) = files sample_world"
proof -
  let ?m = "sample_memory ''Image'' ''https://cdn.test/no-main''"
  let ?zf = "sample_zip [(''2020-overlay.png'', [0x09])]"
  have l: "download_link ?m = ''https://cdn.test/no-main''" by (simp add: sample_memory_def)
  have a: "fetch sample_env (download_link ?m) = Inr (None, sample_zip_no_main)"
    unfolding l by code_simp
  have b: "is_zip None sample_zip_no_main" by code_simp
  have c: "zip_open sample_env sample_zip_no_main = Some ?zf"
    by (simp add: sample_env_def sample_zip_open_def sample_zip_no_main_def sample_zip_video_def)
  have d: "\<forall>f \<in> set (zip_namelist ?zf). \<not> contains f ''-main''" by code_simp
  from archive_without_base_entry [OF a b c d, of True sample_world] a b c
  show ?thesis unfolding l by simp
qed

subsection \<open>Video items whose overlay merge fails\<close>

lemma set_video_metadata_failed:
  assumes "files w p = Some f"
    and "with_suffix p ''.temp.mp4'' \<noteq> p"
    and "ffmpeg_metadata env (file_content f) (video_metadata_of m) = SpawnFailure
         \<or> (\<exists>status out. ffmpeg_metadata env (file_content f) (video_metadata_of m)
                             = Exited status out \<and> status \<noteq> 0)"
  shows "files (set_video_metadata env p m w) p = Some f"
  using assms
  by (auto simp: set_video_metadata_def Let_def files_emit files_write_bytes split: option.splits)

lemma set_video_metadata_remuxed:
  assumes "files w p = Some f"
    and "with_suffix p ''.temp.mp4'' \<noteq> p"
    and "ffmpeg_metadata env (file_content f) (video_metadata_of m) = Exited 0 (Some remux)"
  shows "files (set_video_metadata env p m w) p
           = Some \<lparr>file_content = remux, file_mtime = timestamp (date m)\<rparr>"
  using assms
  by (simp add: set_video_metadata_def Let_def files_emit files_write_bytes utime_def)

lemma filename_video: "lower (media_type m) = ''video'' \<Longrightarrow> filename m = strftime_stamp (date m) @ ''.mp4''"
  by (simp add: filename_def)

lemma apply_metadata_video:
  assumes "lower (media_type m) = ''video''"
  shows "apply_metadata env m add_exif w
           = (if add_exif then set_video_metadata env (filename m) m w else w)"
  using assms by (simp add: apply_metadata_def)

text \<open>
  C4 (as amended). For a video item whose archive holds a base entry and an overlay entry,
  when the overlay-merge run of the external tool exits with a non-zero status, the
  compositing stage writes the unmodified base video bytes to the output file and the item is
  counted downloaded. The file still holds exactly those bytes when the item ends if metadata
  writing is disabled or the metadata run of the tool fails as well; when metadata writing is
  enabled and the metadata run exits with status 0, the file is replaced by the output of
  that run.
\<close>

theorem video_overlay_failure_fallback:
  assumes "lower (media_type m) = ''video''"
    and "fetch env (download_link m) = Inr (content_type, content)"
    and "is_zip content_type content"
    and "zip_open env content = Some zf"
    and "extract_archive zf = Inr (main_data, Some overlay_data)"
    and "ffmpeg_overlay env main_data overlay_data = Exited status out"
    and "status \<noteq> 0"
  shows "composite env m content = Inr main_data
       \<and> snd (download_memory_try env m add_exif w)
           = apply_metadata env m add_exif (persisted env m main_data w)
       \<and> files (persisted env m main_data w) (filename m)
           = Some \<lparr>file_content = main_data, file_mtime = timestamp (date m)\<rparr>
       \<and> fst (download_memory env m add_exif w) = (True, length content)
       \<and> downloaded (fst (process_and_update env add_exif m (st, w))) = downloaded st + 1
       \<and> failed (fst (process_and_update env add_exif m (st, w))) = failed st
       \<and> (\<not> add_exif
            \<or> ffmpeg_metadata env main_data (video_metadata_of m) = SpawnFailure
            \<or> (\<exists>status' out'. ffmpeg_metadata env main_data (video_metadata_of m)
                                 = Exited status' out' \<and> status' \<noteq> 0)
          \<longrightarrow> files (snd (download_memory env m add_exif w)) (filename m)
                = Some \<lparr>file_content = main_data, file_mtime = timestamp (date m)\<rparr>)
       \<and> (\<forall>remux. add_exif
            \<and> ffmpeg_metadata env main_data (video_metadata_of m) = Exited 0 (Some remux)
          \<longrightarrow> files (snd (download_memory env m add_exif w)) (filename m)
                = Some \<lparr>file_content = remux, file_mtime = timestamp (date m)\<rparr>)"
proof -
  have mv: "merge_video env main_data (Some overlay_data) = Inr main_data"
    using assms(6,7) by (simp add: merge_video_def)
  have c: "composite env m content = Inr main_data"
    using assms(1,4,5) mv by (simp add: composite_def)
  then have a: "(if is_zip content_type content then composite env m content else Inr content)
                  = Inr main_data"
    using assms(3) by simp
  note s = download_memory_succeeds [OF assms(2) a, of add_exif]
  let ?f = "\<lparr>file_content = main_data, file_mtime = timestamp (date m)\<rparr>"
  have p: "files (persisted env m main_data w') (filename m) = Some ?f" for w'
    by (simp add: persisted_files)
  have t: "with_suffix (filename m) ''.temp.mp4'' \<noteq> filename m"
    by (rule temp_path_not_filename)
  let ?w1 = "persisted env m main_data (emit m Acquire w)"
  have fin: "files (snd (download_memory env m add_exif w)) (filename m)
      = files (if add_exif then set_video_metadata env (filename m) m ?w1 else ?w1) (filename m)"
    unfolding s(4) [of w] apply_metadata_video [OF assms(1)] ..
  have keep: "files (snd (download_memory env m add_exif w)) (filename m) = Some ?f"
    if "\<not> add_exif
        \<or> ffmpeg_metadata env main_data (video_metadata_of m) = SpawnFailure
        \<or> (\<exists>status' out'. ffmpeg_metadata env main_data (video_metadata_of m)
                             = Exited status' out' \<and> status' \<noteq> 0)"
  proof (cases add_exif)
    case False
    then show ?thesis unfolding fin by (simp add: p)
  next
    case True
    with that have "ffmpeg_metadata env (file_content ?f) (video_metadata_of m) = SpawnFailure
        \<or> (\<exists>status' out'. ffmpeg_metadata env (file_content ?f) (video_metadata_of m)
                             = Exited status' out' \<and> status' \<noteq> 0)"
      by simp
    from set_video_metadata_failed [OF p t this] True show ?thesis unfolding fin by simp
  qed
  have swap: "files (snd (download_memory env m add_exif w)) (filename m)
                = Some \<lparr>file_content = remux, file_mtime = timestamp (date m)\<rparr>"
    if "add_exif \<and> ffmpeg_metadata env main_data (video_metadata_of m) = Exited 0 (Some remux)"
    for remux
  proof -
    from that have "ffmpeg_metadata env (file_content ?f) (video_metadata_of m)
        = Exited 0 (Some remux)" by simp
    from set_video_metadata_remuxed [OF p t this] that show ?thesis unfolding fin by simp
  qed
  show ?thesis
    using c s(2) [of w] p [of w] s(3) [of w] item_counted_downloaded [OF s(3) [of w], of st] keep swap
    by (intro conjI impI allI) simp_all
qed


lemma sample_video_facts:
  "lower (media_type (sample_memory ''Video'' ''https://cdn.test/video-with-overlay'')) = ''video''"
  "fetch sample_env (download_link (sample_memory ''Video'' ''https://cdn.test/video-with-overlay''))
     = Inr (Some ''application/zip'', sample_zip_video)"
  "is_zip (Some ''application/zip'') sample_zip_video"
  "extract_archive (sample_zip [(''2020-main.mp4'', [0x0A, 0x0B, 0x0C]), (''2020-overlay.png'', [0x09])])
     = Inr ([0x0A, 0x0B, 0x0C], Some [0x09])"
  "filename (sample_memory ''Video'' ''https://cdn.test/video-with-overlay'')
     = ''2020-01-01_04-00-00.mp4''"
  "timestamp (date (sample_memory ''Video'' ''https://cdn.test/video-with-overlay'')) = 1577880000"
  by code_simp+

lemma sample_zip_open_video:
  "zip_open sample_env sample_zip_video
     = Some (sample_zip [(''2020-main.mp4'', [0x0A, 0x0B, 0x0C]), (''2020-overlay.png'', [0x09])])"
  by (simp add: sample_env_def sample_zip_open_def)

theorem video_overlay_failure_fallback_witness:
  "ffmpeg_overlay sample_env [0x0A, 0x0B, 0x0C] [0x09] = Exited 1 None
   \<and> fst (download_memory sample_env
             (sample_memory ''Video'' ''https://cdn.test/video-with-overlay'') False empty_world)
       = (True, 5)
   \<and> files (snd (download_memory sample_env
             (sample_memory ''Video'' ''https://cdn.test/video-with-overlay'') False empty_world))
         ''2020-01-01_04-00-00.mp4''
       = Some \<lparr>file_content = [0x0A, 0x0B, 0x0C], file_mtime = 1577880000\<rparr>"
proof -
  have o: "ffmpeg_overlay sample_env [0x0A, 0x0B, 0x0C] [0x09] = Exited 1 None"
    by (simp add: sample_env_def sample_ffmpeg_overlay_def)
  have n: "(1::int) \<noteq> 0" by simp
  have len: "length sample_zip_video = 5" by (simp add: sample_zip_video_def)
  from video_overlay_failure_fallback [OF sample_video_facts(1,2,3) sample_zip_open_video
      sample_video_facts(4) o n, of False empty_world]
  show ?thesis
    using o unfolding sample_video_facts(5,6) len by simp
qed

text \<open>
  With metadata writing enabled and a metadata run that succeeds, the output file of such an
  item is the remuxed file, not the base video bytes.
\<close>

theorem video_overlay_failure_counterexample:
  "composite sample_env (sample_memory ''Video'' ''https://cdn.test/video-with-overlay'')
       sample_zip_video = Inr [0x0A, 0x0B, 0x0C]
   \<and> ffmpeg_overlay sample_env [0x0A, 0x0B, 0x0C] [0x09] = Exited 1 None
   \<and> fst (download_memory sample_env
             (sample_memory ''Video'' ''https://cdn.test/video-with-overlay'') True empty_world)
       = (True, 5)
   \<and> files (snd (download_memory sample_env
             (sample_memory ''Video'' ''https://cdn.test/video-with-overlay'') True empty_world))
         ''2020-01-01_04-00-00.mp4''
       = Some \<lparr>file_content = [0x0A, 0x0B, 0x0C, 0xEE], file_mtime = 1577880000\<rparr>"
proof (intro conjI)
  show "composite sample_env (sample_memory ''Video'' ''https://cdn.test/video-with-overlay'')
       sample_zip_video = Inr [0x0A, 0x0B, 0x0C]"
    by code_simp
  show "ffmpeg_overlay sample_env [0x0A, 0x0B, 0x0C] [0x09] = Exited 1 None"
    by (simp add: sample_env_def sample_ffmpeg_overlay_def)
  show "fst (download_memory sample_env
             (sample_memory ''Video'' ''https://cdn.test/video-with-overlay'') True empty_world)
       = (True, 5)"
    by code_simp
  show "files (snd (download_memory sample_env
             (sample_memory ''Video'' ''https://cdn.test/video-with-overlay'') True empty_world))
         ''2020-01-01_04-00-00.mp4''
       = Some \<lparr>file_content = [0x0A, 0x0B, 0x0C, 0xEE], file_mtime = 1577880000\<rparr>"
    by code_simp
qed

subsection \<open>Records of another media kind\<close>

lemma composite_other_kind:
  assumes "lower (media_type m) \<noteq> ''image''" "lower (media_type m) \<noteq> ''video''"
  shows "\<exists>e. composite env m content = Inl e"
    and "zip_open env content = Some zf \<Longrightarrow> extract_archive zf = Inr x \<Longrightarrow>
         composite env m content = Inl (ValueError (''Unsupported media type: '' @ media_type m))"
  using assms by (auto simp: composite_def split: option.splits sum.splits)

text \<open>
  C10 (as amended). For a record whose media kind, lower-cased, is neither \<^verbatim>\<open>image\<close> nor
  \<^verbatim>\<open>video\<close>: when the fetched payload is classified as a composite archive the item
  fails, is counted failed and writes nothing; the error is the unsupported-media-type
  \<^verbatim>\<open>ValueError\<close> when the archive opens and its base entry can be read. When the payload
  is plain the item succeeds: the raw bytes are written under the derived file name, which
  ends in \<^verbatim>\<open>.mp4\<close>, and the item is counted downloaded.
\<close>

theorem other_media_kind:
  assumes "lower (media_type m) \<noteq> ''image''" and "lower (media_type m) \<noteq> ''video''"
    and "fetch env (download_link m) = Inr (content_type, content)"
  shows "(is_zip content_type content \<longrightarrow>
            (\<exists>e. fst (download_memory_try env m add_exif w) = Inl e)
          \<and> (\<forall>zf x. zip_open env content = Some zf \<and> extract_archive zf = Inr x \<longrightarrow>
                fst (download_memory_try env m add_exif w)
                  = Inl (ValueError (''Unsupported media type: '' @ media_type m)))
          \<and> fst (download_memory env m add_exif w) = (False, 0)
          \<and> files (snd (download_memory env m add_exif w)) = files w
          \<and> failed (fst (process_and_update env add_exif m (st, w))) = failed st + 1
          \<and> downloaded (fst (process_and_update env add_exif m (st, w))) = downloaded st)
       \<and> (\<not> is_zip content_type content \<longrightarrow>
            fst (download_memory env m add_exif w) = (True, length content)
          \<and> filename m = strftime_stamp (date m) @ ''.mp4''
          \<and> files (snd (download_memory env m add_exif w))
              = (files w)(filename m \<mapsto>
                   \<lparr>file_content = content, file_mtime = timestamp (date m)\<rparr>)
          \<and> downloaded (fst (process_and_update env add_exif m (st, w))) = downloaded st + 1
          \<and> failed (fst (process_and_update env add_exif m (st, w))) = failed st)"
proof (intro conjI impI)
  assume z: "is_zip content_type content"
  obtain e where e: "composite env m content = Inl e"
    using composite_other_kind(1) [OF assms(1,2)] by blast
  then have a: "(if is_zip content_type content then composite env m content else Inr content) = Inl e"
    using z by simp
  note f = download_memory_fails [OF assms(3) a, of add_exif w]
  show "\<exists>e. fst (download_memory_try env m add_exif w) = Inl e" using f(1) by blast
  show "\<forall>zf x. zip_open env content = Some zf \<and> extract_archive zf = Inr x \<longrightarrow>
                fst (download_memory_try env m add_exif w)
                  = Inl (ValueError (''Unsupported media type: '' @ media_type m))"
    using composite_other_kind(2) [OF assms(1,2)] e f(1) by (metis sum.inject(1))
  show "fst (download_memory env m add_exif w) = (False, 0)" by (rule f(2))
  show "files (snd (download_memory env m add_exif w)) = files w" by (rule f(3))
  show "failed (fst (process_and_update env add_exif m (st, w))) = failed st + 1"
    by (rule item_counted_failed(1) [OF f(2)])
  show "downloaded (fst (process_and_update env add_exif m (st, w))) = downloaded st"
    by (rule item_counted_failed(2) [OF f(2)])
next
  assume z: "\<not> is_zip content_type content"
  then have a: "(if is_zip content_type content then composite env m content else Inr content)
                  = Inr content"
    by simp
  note s = download_memory_succeeds [OF assms(3) a, of add_exif w]
  show "fst (download_memory env m add_exif w) = (True, length content)" by (rule s(3))
  show "filename m = strftime_stamp (date m) @ ''.mp4''"
    using assms(1) by (simp add: filename_def)
  show "files (snd (download_memory env m add_exif w))
              = (files w)(filename m \<mapsto>
                   \<lparr>file_content = content, file_mtime = timestamp (date m)\<rparr>)"
    unfolding s(4) using assms(1,2)
    by (simp add: apply_metadata_def persisted_files files_emit)
  show "downloaded (fst (process_and_update env add_exif m (st, w))) = downloaded st + 1"
    by (rule item_counted_downloaded(1) [OF s(3)])
  show "failed (fst (process_and_update env add_exif m (st, w))) = failed st"
    by (rule item_counted_downloaded(2) [OF s(3)])
qed

lemma sample_audio_facts:
  "lower (media_type (sample_memory ''Audio'' ''https://cdn.test/plain'')) \<noteq> ''image''"
  "lower (media_type (sample_memory ''Audio'' ''https://cdn.test/plain'')) \<noteq> ''video''"
  "fetch sample_env (download_link (sample_memory ''Audio'' ''https://cdn.test/plain''))
     = Inr (Some ''application/octet-stream'', sample_plain)"
  "\<not> is_zip (Some ''application/octet-stream'') sample_plain"
  "filename (sample_memory ''Audio'' ''https://cdn.test/plain'') = ''2020-01-01_04-00-00.mp4''"
  "timestamp (date (sample_memory ''Audio'' ''https://cdn.test/plain'')) = 1577880000"
  "lower (media_type (sample_memory ''Audio'' ''https://cdn.test/video-with-overlay'')) \<noteq> ''image''"
  "lower (media_type (sample_memory ''Audio'' ''https://cdn.test/video-with-overlay'')) \<noteq> ''video''"
  "fetch sample_env (download_link (sample_memory ''Audio'' ''https://cdn.test/video-with-overlay''))
     = Inr (Some ''application/zip'', sample_zip_video)"
  by code_simp+

theorem other_media_kind_witness:
  "fst (download_memory sample_env (sample_memory ''Audio'' ''https://cdn.test/plain'')
          True empty_world) = (True, 4)
   \<and> files (snd (download_memory sample_env (sample_memory ''Audio'' ''https://cdn.test/plain'')
          True empty_world)) ''2020-01-01_04-00-00.mp4''
       = Some \<lparr>file_content = sample_plain, file_mtime = 1577880000\<rparr>
   \<and> fst (download_memory_try sample_env
            (sample_memory ''Audio'' ''https://cdn.test/video-with-overlay'') True empty_world)
       = Inl (ValueError ''Unsupported media type: Audio'')
   \<and> fst (download_memory sample_env
            (sample_memory ''Audio'' ''https://cdn.test/video-with-overlay'') True empty_world)
       = (False, 0)"
proof -
  have len: "length sample_plain = 4" by (simp add: sample_plain_def)
  have mt: "media_type (sample_memory ''Audio'' ''https://cdn.test/video-with-overlay'') = ''Audio''"
    by (simp add: sample_memory_def)
  from other_media_kind [OF sample_audio_facts(1,2,3), of True empty_world]
  have plain: "fst (download_memory sample_env (sample_memory ''Audio'' ''https://cdn.test/plain'')
          True empty_world) = (True, 4)
     \<and> files (snd (download_memory sample_env (sample_memory ''Audio'' ''https://cdn.test/plain'')
          True empty_world)) ''2020-01-01_04-00-00.mp4''
       = Some \<lparr>file_content = sample_plain, file_mtime = 1577880000\<rparr>"
    using sample_audio_facts(4) unfolding sample_audio_facts(5,6) len by simp
  from other_media_kind [OF sample_audio_facts(7,8,9), of True empty_world]
  have zip: "fst (download_memory_try sample_env
            (sample_memory ''Audio'' ''https://cdn.test/video-with-overlay'') True empty_world)
       = Inl (ValueError ''Unsupported media type: Audio'')
     \<and> fst (download_memory sample_env
            (sample_memory ''Audio'' ''https://cdn.test/video-with-overlay'') True empty_world)
       = (False, 0)"
    using sample_video_facts(3,4) sample_zip_open_video unfolding mt by simp
  from plain zip show ?thesis by simp
qed

text \<open>
  A composite payload of such a record does not always raise the unsupported-media-type
  error: an archive without a base entry raises the format error first.
\<close>

theorem other_media_kind_counterexample:
  "lower (media_type (sample_memory ''Audio'' ''https://cdn.test/no-main'')) \<noteq> ''image''
   \<and> lower (media_type (sample_memory ''Audio'' ''https://cdn.test/no-main'')) \<noteq> ''video''
   \<and> fetch sample_env ''https://cdn.test/no-main'' = Inr (None, sample_zip_no_main)
   \<and> is_zip None sample_zip_no_main
   \<and> fst (download_memory_try sample_env (sample_memory ''Audio'' ''https://cdn.test/no-main'')
            True empty_world)
       = Inl (ValueError ''No main media file found in ZIP.'')"
  by (intro conjI; code_simp)

subsection \<open>Image compositing\<close>













text \<open>
  An overlay entry that is present but has zero bytes is not decoded (it could not be: the
  library cannot open an empty image); the item succeeds with the base image alone.
\<close>

theorem image_overlay_empty_counterexample:
  "zip_open sample_env sample_zip_empty_overlay
     = Some (sample_zip [(''2020-main.jpg'', [0x0A, 0x0B, 0x0C]), (''2020-overlay.png'', [])])
   \<and> first_where (\<lambda>f. contains f ''-overlay'')
        (zip_namelist (sample_zip [(''2020-main.jpg'', [0x0A, 0x0B, 0x0C]), (''2020-overlay.png'', [])]))
       = Some ''2020-overlay.png''
   \<and> extract_archive (sample_zip [(''2020-main.jpg'', [0x0A, 0x0B, 0x0C]), (''2020-overlay.png'', [])])
       = Inr ([0x0A, 0x0B, 0x0C], Some [])
   \<and> image_open sample_env [] = None
   \<and> image_open sample_env [0x0A, 0x0B, 0x0C] = Some ((3, 3), RGB)
   \<and> merged_image sample_env [0x0A, 0x0B, 0x0C] (Some [])
       = Inr (image_convert sample_env (image_convert sample_env ((3, 3), RGB) RGBA) RGB)
   \<and> composite sample_env (sample_memory ''Image'' ''https://cdn.test/image-empty-overlay'')
        sample_zip_empty_overlay = Inr [0xFF, 0xD8]
   \<and> fst (download_memory sample_env
          (sample_memory ''Image'' ''https://cdn.test/image-empty-overlay'') False empty_world)
       = (True, 5)
   \<and> files (snd (download_memory sample_env
          (sample_memory ''Image'' ''https://cdn.test/image-empty-overlay'') False empty_world))
        ''2020-01-01_04-00-00.jpg''
       = Some \<lparr>file_content = [0xFF, 0xD8], file_mtime = 1577880000\<rparr>"
proof (intro conjI)
  show "zip_open sample_env sample_zip_empty_overlay
     = Some (sample_zip [(''2020-main.jpg'', [0x0A, 0x0B, 0x0C]), (''2020-overlay.png'', [])])"
    by (simp add: sample_env_def sample_zip_open_def sample_zip_video_def sample_zip_no_main_def
        sample_zip_empty_overlay_def)
  show "first_where (\<lambda>f. contains f ''-overlay'')
        (zip_namelist (sample_zip [(''2020-main.jpg'', [0x0A, 0x0B, 0x0C]), (''2020-overlay.png'', [])]))
       = Some ''2020-overlay.png''"
    by code_simp
  show "extract_archive (sample_zip [(''2020-main.jpg'', [0x0A, 0x0B, 0x0C]), (''2020-overlay.png'', [])])
       = Inr ([0x0A, 0x0B, 0x0C], Some [])"
    by code_simp
  show "image_open sample_env [] = None"
    by (simp add: sample_env_def sample_image_open_def)
  show "image_open sample_env [0x0A, 0x0B, 0x0C] = Some ((3, 3), RGB)"
    by (simp add: sample_env_def sample_image_open_def)
  show "merged_image sample_env [0x0A, 0x0B, 0x0C] (Some [])
       = Inr (image_convert sample_env (image_convert sample_env ((3, 3), RGB) RGBA) RGB)"
    by (simp add: merged_image_def sample_env_def sample_image_open_def)
  show "composite sample_env (sample_memory ''Image'' ''https://cdn.test/image-empty-overlay'')
        sample_zip_empty_overlay = Inr [0xFF, 0xD8]"
    by code_simp
  show "fst (download_memory sample_env
          (sample_memory ''Image'' ''https://cdn.test/image-empty-overlay'') False empty_world)
       = (True, 5)"
    by code_simp
  show "files (snd (download_memory sample_env
          (sample_memory ''Image'' ''https://cdn.test/image-empty-overlay'') False empty_world))
        ''2020-01-01_04-00-00.jpg''
       = Some \<lparr>file_content = [0xFF, 0xD8], file_mtime = 1577880000\<rparr>"
    by code_simp
qed

subsection \<open>The concurrency gate\<close>

lemma count_update_new:
  assumes "i < length ts" "ts ! i \<noteq> x"
  shows "length (filter (\<lambda>t. t = x) (ts[i := x])) = Suc (length (filter (\<lambda>t. t = x) ts))"
  using assms
proof (induction ts arbitrary: i)
  case Nil
  then show ?case by simp
next
  case (Cons t ts)
  then show ?case by (cases i) auto
qed

lemma count_update_old:
  assumes "i < length ts" "ts ! i = x" "y \<noteq> x"
  shows "Suc (length (filter (\<lambda>t. t = x) (ts[i := y]))) = length (filter (\<lambda>t. t = x) ts)"
  using assms
proof (induction ts arbitrary: i)
  case Nil
  then show ?case by simp
next
  case (Cons t ts)
  then show ?case by (cases i) auto
qed

lemma gate_step_invariant:
  assumes "gate_step g g'"
  shows "permits g' + active_count g' = permits g + active_count g"
    and "length (tasks g') = length (tasks g)"
  using assms
proof (induction rule: gate_step.induct)
  case (acquire i g)
  {
    case 1
    have "active_count \<lparr>permits = permits g - 1, tasks = (tasks g)[i := Active]\<rparr>
            = Suc (active_count g)"
      unfolding active_count_def using acquire count_update_new [of i "tasks g" Active] by simp
    then show ?case using acquire by simp
  next
    case 2
    show ?case by simp
  }
next
  case (release i g)
  {
    case 1
    have "Suc (active_count \<lparr>permits = permits g + 1, tasks = (tasks g)[i := Done]\<rparr>)
            = active_count g"
      unfolding active_count_def using release count_update_old [of i "tasks g" Active Done] by simp
    then show ?case by simp
  next
    case 2
    show ?case by simp
  }
qed

lemma reachable_invariant:
  assumes "reachable k n g"
  shows "permits g + active_count g = k \<and> length (tasks g) = n"
  using assms
proof (induction rule: reachable.induct)
  case (start k n)
  have "filter (\<lambda>t. t = Active) (replicate n Waiting) = []"
    by (induction n) simp_all
  then show ?case by (simp add: initial_gate_def active_count_def)
next
  case (step k n g g')
  then show ?case using gate_step_invariant [of g g'] by simp
qed

text \<open>
  C9. With a gate of size \<open>K\<close>, in every state that any interleaving of the items can
  reach, at most \<open>K\<close> items are between acquire and release; a waiting item can pass
  \<^verbatim>\<open>acquire\<close> exactly when fewer than \<open>K\<close> items are admitted.
\<close>

theorem concurrency_bound:
  assumes "reachable k n g"
  shows "active_count g \<le> k
       \<and> (\<forall>i < length (tasks g). tasks g ! i = Waiting \<longrightarrow>
            gate_step g \<lparr>permits = permits g - 1, tasks = (tasks g)[i := Active]\<rparr>
              = (active_count g < k))"
proof (intro conjI allI impI)
  note inv = reachable_invariant [OF assms]
  show "active_count g \<le> k" using inv by simp
  fix i
  assume i: "i < length (tasks g)" "tasks g ! i = Waiting"
  show "gate_step g \<lparr>permits = permits g - 1, tasks = (tasks g)[i := Active]\<rparr>
          = (active_count g < k)"
  proof
    assume "gate_step g \<lparr>permits = permits g - 1, tasks = (tasks g)[i := Active]\<rparr>"
    then have "0 < permits g"
      by (cases rule: gate_step.cases) auto
    then show "active_count g < k" using inv by simp
  next
    assume "active_count g < k"
    then have "0 < permits g" using inv by simp
    then show "gate_step g \<lparr>permits = permits g - 1, tasks = (tasks g)[i := Active]\<rparr>"
      using i by (rule gate_step.acquire [rotated 2])
  qed
qed


lemma initial_gate_3_10:
  "initial_gate 3 10
     = \<lparr>permits = 3,
        tasks = [Waiting, Waiting, Waiting, Waiting, Waiting, Waiting, Waiting, Waiting, Waiting, Waiting]\<rparr>"
  by code_simp

lemma three_admitted_reachable: "reachable 3 10 three_admitted"
proof -
  let ?g0 = "\<lparr>permits = 3,
        tasks = [Waiting, Waiting, Waiting, Waiting, Waiting, Waiting, Waiting, Waiting, Waiting, Waiting]\<rparr>"
  let ?g1 = "\<lparr>permits = 2,
        tasks = [Active, Waiting, Waiting, Waiting, Waiting, Waiting, Waiting, Waiting, Waiting, Waiting]\<rparr>"
  let ?g2 = "\<lparr>permits = 1,
        tasks = [Active, Active, Waiting, Waiting, Waiting, Waiting, Waiting, Waiting, Waiting, Waiting]\<rparr>"
  have r0: "reachable 3 10 ?g0"
    using reachable.start [of 3 10] by (simp only: initial_gate_3_10)
  have s1: "gate_step ?g0 ?g1" using gate_step.acquire [of 0 ?g0] by simp
  have s2: "gate_step ?g1 ?g2" using gate_step.acquire [of 1 ?g1] by simp
  have s3: "gate_step ?g2 three_admitted"
    using gate_step.acquire [of 2 ?g2] by (simp add: three_admitted_def)
  from r0 s1 have "reachable 3 10 ?g1" by (rule reachable.step)
  from this s2 have "reachable 3 10 ?g2" by (rule reachable.step)
  from this s3 show ?thesis by (rule reachable.step)
qed

theorem concurrency_bound_witness:
  "reachable 3 10 three_admitted
   \<and> active_count three_admitted = 3
   \<and> active_count three_admitted \<le> 3
   \<and> tasks three_admitted ! 3 = Waiting
   \<and> \<not> gate_step three_admitted
          \<lparr>permits = permits three_admitted - 1, tasks = (tasks three_admitted)[3 := Active]\<rparr>"
proof -
  have a: "active_count three_admitted = 3" by code_simp
  have l: "3 < length (tasks three_admitted)" by (simp add: three_admitted_def)
  have w: "tasks three_admitted ! 3 = Waiting" by (simp add: three_admitted_def)
  from concurrency_bound [OF three_admitted_reachable] l w
  have "active_count three_admitted \<le> 3
     \<and> gate_step three_admitted
          \<lparr>permits = permits three_admitted - 1, tasks = (tasks three_admitted)[3 := Active]\<rparr>
        = (active_count three_admitted < 3)"
    by blast
  then show ?thesis using three_admitted_reachable a w by simp
qed

end
